theory Spec2Isabelle
  imports Main "HOL-Library.AList" "HOL-Library.Char_ord" "HOL-Library.List_Lexorder"
    "HOL-Library.Sublist"
begin

section \<open>Go library functions used by device.go\<close>

text \<open>
  Go strings are byte sequences; \<open>string\<close> (a \<open>char list\<close>) models them byte for byte.
  The backslash is written \<open>CHR 0x5C\<close>.
\<close>

definition backslash :: char where
  "backslash = CHR 0x5C"

text \<open>
  \<open>strings.Trim(s, cutset)\<close>: drop the leading and the trailing bytes that occur in the
  cut set (every cut set of device.go is the one-byte string \<open>"/"\<close>).
\<close>

definition Trim :: "string \<Rightarrow> string \<Rightarrow> string" where
  "Trim s cutset =
     rev (dropWhile (\<lambda>c. c \<in> set cutset) (rev (dropWhile (\<lambda>c. c \<in> set cutset) s)))"

text \<open>
  \<open>strings.ReplaceAll(s, old, new)\<close> for a one-byte pattern \<open>old\<close>, which is what each of
  the three call sites of device.go passes.
\<close>

fun ReplaceAll :: "string \<Rightarrow> char \<Rightarrow> string \<Rightarrow> string" where
  "ReplaceAll [] old new = []"
| "ReplaceAll (c # cs) old new =
     (if c = old then new @ ReplaceAll cs old new else c # ReplaceAll cs old new)"

text \<open>\<open>fmt.Sprintf("%d", n)\<close> and \<open>fmt.Sprintf("%x", n)\<close> on an unsigned value.\<close>

definition digit_char :: "nat \<Rightarrow> char" where
  "digit_char d = (''0123456789abcdef'') ! d"


function Sprintf_x :: "nat \<Rightarrow> string" where
  "Sprintf_x n = (if n < 16 then [digit_char n] else Sprintf_x (n div 16) @ [digit_char (n mod 16)])"
  by pat_completeness auto
termination
  by (relation "measure (\<lambda>n. n)") auto

declare Sprintf_x.simps [simp del]

text \<open>
  \<open>fmt.Errorf(format)\<close> called with a format and no operands, which is how device.go
  builds the error of an unknown filesystem type: the message is what \<open>doPrintf\<close> of
  package \<open>fmt\<close> writes for \<open>format\<close> and an empty operand list. The definitions below
  follow that loop. The flags, the width and the precision only matter for the printing of
  an operand, so with no operand what is left of them is the text they consume and the error
  markers they write.
\<close>

definition isFlag :: "char \<Rightarrow> bool" where
  "isFlag c \<longleftrightarrow> c \<in> set ''#0+- ''"

definition isDigit :: "char \<Rightarrow> bool" where
  "isDigit c \<longleftrightarrow> 48 \<le> (of_char c :: nat) \<and> (of_char c :: nat) \<le> 57"

text \<open>
  \<open>parsenum\<close> reads a decimal number: the result says whether there was a digit, and gives
  the text after the number. A number above a million is refused, and then the rest of the
  format is skipped as a whole (\<open>None\<close>).
\<close>

fun parsenum :: "nat \<Rightarrow> bool \<Rightarrow> string \<Rightarrow> (bool \<times> string) option" where
  "parsenum num isnum [] = Some (isnum, [])"
| "parsenum num isnum (c # cs) =
     (if isDigit c
      then (if num > 1000000 then None
            else parsenum (num * 10 + (of_char c - 48)) True cs)
      else Some (isnum, c # cs))"

text \<open>
  \<open>parseArgNumber\<close> is called on a format that starts with \<open>[\<close>: the number of bytes up
  to and including the closing bracket (one byte when there is none), and whether the
  brackets hold a number and nothing else.
\<close>

definition parseArgNumber :: "string \<Rightarrow> nat \<times> bool" where
  "parseArgNumber format =
     (if length format < 3 then (1, False)
      else let digits = takeWhile (\<lambda>c. c \<noteq> CHR '']'') (tl format)
           in if length digits = length (tl format) then (1, False)
              else (length digits + 2, parsenum 0 False digits = Some (True, [])))"

text \<open>
  \<open>argNumber\<close>: an explicit argument index \<open>[n]\<close>. With no operands no index is in range,
  so an index always clears \<open>goodArgNum\<close>. The result is the rest of the format, whether
  an index was found, and \<open>goodArgNum\<close>.
\<close>

definition argNumber :: "bool \<Rightarrow> string \<Rightarrow> string \<times> bool \<times> bool" where
  "argNumber goodArgNum format =
     (case format of
        [] \<Rightarrow> (format, False, goodArgNum)
      | c # cs \<Rightarrow>
          if c \<noteq> CHR ''['' then (format, False, goodArgNum)
          else let (wid, ok) = parseArgNumber format
               in (drop wid format, ok, False))"

text \<open>
  The verb is one rune. \<open>utf8.DecodeRuneInString\<close> on a non-empty string: the bytes that
  writing the decoded rune gives, and the rest of the string. Bytes that are not the UTF-8
  encoding of a rune decode, one byte at a time, to U+FFFD, which is written as
  \<open>EF BF BD\<close>.
\<close>

definition isContinuation :: "char \<Rightarrow> bool" where
  "isContinuation c \<longleftrightarrow> 128 \<le> (of_char c :: nat) \<and> (of_char c :: nat) \<le> 191"

definition DecodeRuneInString :: "string \<Rightarrow> string \<times> string" where
  "DecodeRuneInString s =
     (let s0 = (of_char (hd s) :: nat);
          sz = (if 194 \<le> s0 \<and> s0 \<le> 223 then 2
                else if 224 \<le> s0 \<and> s0 \<le> 239 then 3
                else if 240 \<le> s0 \<and> s0 \<le> 244 then 4
                else 1);
          lo = (if s0 = 224 then 160 else if s0 = 240 then 144 else 128);
          hi = (if s0 = 237 then 159 else if s0 = 244 then 143 else 191);
          RuneError = [CHR 0xEF, CHR 0xBF, CHR 0xBD]
      in if s0 < 128 then ([hd s], tl s)
         else if sz = 1 \<or> length s < sz then (RuneError, tl s)
         else if (of_char (s ! 1) :: nat) < lo \<or> hi < (of_char (s ! 1) :: nat)
              then (RuneError, tl s)
         else if \<not> list_all isContinuation (drop 2 (take sz s)) then (RuneError, tl s)
         else (take sz s, drop sz s))"

text \<open>
  The width: \<open>*\<close> asks for an operand, and there is none; otherwise a number. The result
  is the text written, the rest of the format, \<open>afterIndex\<close> and \<open>goodArgNum\<close>.
\<close>

definition widthPart :: "string \<Rightarrow> bool \<Rightarrow> bool \<Rightarrow> string \<times> string \<times> bool \<times> bool" where
  "widthPart format afterIndex goodArgNum =
     (if format \<noteq> [] \<and> hd format = CHR ''*''
      then (''%!(BADWIDTH)'', tl format, False, goodArgNum)
      else (case parsenum 0 False format of
              None \<Rightarrow> ([], [], afterIndex, goodArgNum)
            | Some (widPresent, rest) \<Rightarrow>
                ([], rest, afterIndex, goodArgNum \<and> \<not> (afterIndex \<and> widPresent))))"

text \<open>The precision: a \<open>.\<close> followed by an index, and then \<open>*\<close> or a number.\<close>

definition precisionPart :: "string \<Rightarrow> bool \<Rightarrow> bool \<Rightarrow> string \<times> string \<times> bool \<times> bool" where
  "precisionPart format afterIndex goodArgNum =
     (if format \<noteq> [] \<and> hd format = CHR ''.''
      then (let (format1, afterIndex1, goodArgNum1) =
                  argNumber (goodArgNum \<and> \<not> afterIndex) (tl format)
            in if format1 \<noteq> [] \<and> hd format1 = CHR ''*''
               then (''%!(BADPREC)'', tl format1, False, goodArgNum1)
               else (case parsenum 0 False format1 of
                       None \<Rightarrow> ([], [], afterIndex1, goodArgNum1)
                     | Some (precPresent, rest) \<Rightarrow> ([], rest, afterIndex1, goodArgNum1)))
      else ([], format, afterIndex, goodArgNum))"

text \<open>
  The verb. At the end of the format there is none, and the loop stops (\<open>None\<close>). \<open>%\<close>
  writes a percent sign; any other verb has no operand to print.
\<close>

definition verbPart :: "string \<Rightarrow> bool \<Rightarrow> string \<times> string option" where
  "verbPart format goodArgNum =
     (if format = [] then (''%!(NOVERB)'', None)
      else let (verb, rest) = DecodeRuneInString format
           in if verb = ''%'' then (''%'', Some rest)
              else if \<not> goodArgNum then (''%!'' @ verb @ ''(BADINDEX)'', Some rest)
              else (''%!'' @ verb @ ''(MISSING)'', Some rest))"

text \<open>
  One directive, read from the byte after its \<open>%\<close>: flags, index, width, precision,
  index, verb. The result is the text written and the rest of the format.
\<close>

definition directive :: "string \<Rightarrow> string \<times> string option" where
  "directive format =
     (let (format2, afterIndex2, goodArgNum2) = argNumber True (dropWhile isFlag format);
          (out3, format3, afterIndex3, goodArgNum3) = widthPart format2 afterIndex2 goodArgNum2;
          (out5, format5, afterIndex5, goodArgNum5) =
            precisionPart format3 afterIndex3 goodArgNum3;
          (format6, afterIndex6, goodArgNum6) =
            (if afterIndex5 then (format5, afterIndex5, goodArgNum5)
             else argNumber goodArgNum5 format5);
          (out7, rest) = verbPart format6 goodArgNum6
      in (out3 @ out5 @ out7, rest))"

text \<open>The loop of \<open>doPrintf\<close>: bytes other than \<open>%\<close> are copied.\<close>

function doPrintf :: "string \<Rightarrow> string" where
  "doPrintf [] = []"
| "doPrintf (c # cs) =
     (if c \<noteq> CHR ''%'' then c # doPrintf cs
      else (case directive cs of
              (out, None) \<Rightarrow> out
            | (out, Some rest) \<Rightarrow> out @ doPrintf rest))"
  by pat_completeness auto
termination
proof -
  have parsenum_length: "length r \<le> length s"
    if "parsenum num isnum s = Some (b, r)" for num isnum s b r
    using that by (induction s arbitrary: num isnum) (auto split: if_splits intro: le_SucI)
  have argNumber_length: "length r \<le> length s"
    if "argNumber g s = (r, a, g')" for g s r a g'
    using that by (auto simp: argNumber_def split: list.splits if_splits prod.splits)
  have widthPart_length: "length r \<le> length s"
    if "widthPart s a g = (out, r, a', g')" for s a g out r a' g'
    using that
    by (auto simp: widthPart_def split: if_splits option.splits dest: parsenum_length)
  have precisionPart_length: "length r \<le> length s"
    if p: "precisionPart s a g = (out, r, a', g')" for s a g out r a' g'
  proof (cases "s \<noteq> [] \<and> hd s = CHR ''.''")
    case False
    with p show ?thesis by (auto simp: precisionPart_def)
  next
    case True
    obtain s1 a1 g1 where n: "argNumber (g \<and> \<not> a) (tl s) = (s1, a1, g1)"
      by (cases "argNumber (g \<and> \<not> a) (tl s)") auto
    from argNumber_length [OF n] have "length s1 \<le> length s" by simp
    moreover from p True n have "length r \<le> length s1"
      by (auto simp: precisionPart_def split: if_splits option.splits dest: parsenum_length)
    ultimately show ?thesis by simp
  qed
  have verbPart_length: "length r < length s"
    if "verbPart s g = (out, Some r)" for s g out r
    using that
    by (cases s)
       (auto simp: verbPart_def DecodeRuneInString_def Let_def split: if_splits prod.splits)
  have directive_length: "length r < Suc (length s)"
    if d: "directive s = (out, Some r)" for s out r
  proof -
    obtain s2 a2 g2 where 2: "argNumber True (dropWhile isFlag s) = (s2, a2, g2)"
      by (cases "argNumber True (dropWhile isFlag s)") auto
    obtain o3 s3 a3 g3 where 3: "widthPart s2 a2 g2 = (o3, s3, a3, g3)"
      by (cases "widthPart s2 a2 g2") auto
    obtain o5 s5 a5 g5 where 5: "precisionPart s3 a3 g3 = (o5, s5, a5, g5)"
      by (cases "precisionPart s3 a3 g3") auto
    obtain s6 a6 g6 where 6:
      "(if a5 then (s5, a5, g5) else argNumber g5 s5) = (s6, a6, g6)"
      by (cases "if a5 then (s5, a5, g5) else argNumber g5 s5") auto
    from d 2 3 5 6 obtain o7 where 7: "verbPart s6 g6 = (o7, Some r)"
      by (cases "verbPart s6 g6") (auto simp: directive_def)
    have "length s2 \<le> length s"
      using argNumber_length [OF 2] length_dropWhile_le [of isFlag s] by simp
    moreover have "length s3 \<le> length s2" by (rule widthPart_length [OF 3])
    moreover have "length s5 \<le> length s3" by (rule precisionPart_length [OF 5])
    moreover have "length s6 \<le> length s5"
      using 6 by (auto split: if_splits dest: argNumber_length)
    moreover have "length r < length s6" by (rule verbPart_length [OF 7])
    ultimately show ?thesis by simp
  qed
  show ?thesis
    by (relation "measure length") (auto dest: directive_length [OF sym])
qed

definition Errorf :: "string \<Rightarrow> string" where
  "Errorf format = doPrintf format"

section \<open>Name resolver: pathEscape\<close>

text \<open>
  The closure \<open>escapeChars\<close> of \<open>pathEscape\<close>: replace every occurrence of the one-byte
  string \<open>char\<close> by \<open>\x\<close> followed by the hexadecimal value of its byte.
\<close>

definition escapeChars :: "string \<Rightarrow> char \<Rightarrow> string" where
  "escapeChars s c = ReplaceAll s c (backslash # CHR ''x'' # Sprintf_x (of_char c))"

definition pathEscape :: "string \<Rightarrow> string" where
  "pathEscape path =
     (if length path = 0 \<or> path = ''/'' then ''-''
      else let path1 = Trim path ''/'';
               path2 = escapeChars path1 backslash;
               path3 = escapeChars path2 (CHR ''-'')
           in ReplaceAll path3 (CHR ''/'') ''-'')"

section \<open>The storage tree (package disk)\<close>

text \<open>
  Modelled from the spec: package \<open>disk\<close> (the entity types, their traversals and
  \<open>BytesToSectors\<close>) is imported by device.go but is not part of the sources at hand.
  The fields are the ones device.go reads. A payload is a Go interface value that may be
  nil, hence \<open>Entity option\<close>; the partitions of a table and the logical volumes of a
  volume group are typed slices, kept here as tuples of their fields. The table's
  byte-to-sector conversion is carried by the table itself. The unsigned integers of the
  Go structs are natural numbers: device.go copies, converts and prints them, and does no
  arithmetic of its own on them.
\<close>

record disk_Argon2id =
  Iterations :: nat
  Memory :: nat
  Parallelism :: nat

record ClevisBind =
  Pin :: string
  Policy :: string
  RemovePassphrase :: bool

record LUKSContainer_fields =
  UUID :: string
  Passphrase :: string
  Cipher :: string
  Label :: string
  Subsystem :: string
  SectorSize :: nat
  PBKDF :: disk_Argon2id
  Clevis :: "ClevisBind option"

datatype Entity =
    PartitionTable "nat \<Rightarrow> nat" "(nat \<times> nat \<times> Entity option) list"
  | Partition nat nat "Entity option"
  | LUKSContainer LUKSContainer_fields "Entity option"
  | LVMVolumeGroup string "(string \<times> nat \<times> Entity option) list"
  | LVMLogicalVolume string nat "Entity option"
  | Filesystem string string

text \<open>
  Modelled from the spec: the children of a node, in the tree's natural order
  (the \<open>Container\<close> view of an entity). \<open>PartitionTable b ps\<close> has the conversion
  \<open>b\<close> and the partitions \<open>ps\<close> as (start, size, payload); \<open>LVMVolumeGroup n lvs\<close> has
  the logical volumes \<open>lvs\<close> as (name, size, payload); \<open>Filesystem t m\<close> is the Mountable
  leaf with filesystem type \<open>t\<close> and mountpoint \<open>m\<close>.
\<close>

fun children :: "Entity \<Rightarrow> Entity list" where
  "children (PartitionTable b ps) = map (\<lambda>(start, sz, payload). Partition start sz payload) ps"
| "children (Partition start sz payload) = (case payload of None \<Rightarrow> [] | Some e \<Rightarrow> [e])"
| "children (LUKSContainer c payload) = (case payload of None \<Rightarrow> [] | Some e \<Rightarrow> [e])"
| "children (LVMVolumeGroup name lvs) = map (\<lambda>(n, sz, payload). LVMLogicalVolume n sz payload) lvs"
| "children (LVMLogicalVolume name sz payload) = (case payload of None \<Rightarrow> [] | Some e \<Rightarrow> [e])"
| "children (Filesystem t mountpoint) = []"

fun isMountable :: "Entity \<Rightarrow> bool" where
  "isMountable (Filesystem t mountpoint) = True"
| "isMountable _ = False"

fun GetMountpoint :: "Entity \<Rightarrow> string" where
  "GetMountpoint (Filesystem t mountpoint) = mountpoint"
| "GetMountpoint _ = []"

fun GetFSType :: "Entity \<Rightarrow> string" where
  "GetFSType (Filesystem t mountpoint) = t"
| "GetFSType _ = []"

text \<open>
  Modelled from the spec: \<open>ForEachEntity\<close> visits every entity of the tree, parents before
  their children and siblings in their natural order, and hands the callback the entity
  together with the path from the root to it, the entity included. \<open>ForEachMountable\<close>
  visits the Mountable leaves only, with the same paths. Both are given here as the list
  of calls they make, in order.
\<close>

function forEachEntity :: "Entity \<Rightarrow> Entity list \<Rightarrow> (Entity \<times> Entity list) list" where
  "forEachEntity e path =
     (let childPath = path @ [e]
      in (e, childPath) # concat (map (\<lambda>c. forEachEntity c childPath) (children e)))"
  by pat_completeness auto
termination
proof (relation "measure (\<lambda>(e, path). size e)")
  show "wf (measure (\<lambda>(e, path). size e))" by simp
next
  fix e :: Entity and path x :: "Entity list" and c
  assume c: "c \<in> set (children e)"
  have mem: "(s, z, p) \<in> set ps \<Longrightarrow>
      size_option size p < size_list (size_prod (\<lambda>x. 0) (size_prod (\<lambda>x. 0) (size_option size))) ps"
    for s z :: nat and p :: "Entity option" and ps
    by (induction ps) auto
  have mem': "(n, z, p) \<in> set lvs \<Longrightarrow>
      size_option size p < size_list (size_prod (\<lambda>x. 0) (size_prod (\<lambda>x. 0) (size_option size))) lvs"
    for n :: string and z :: nat and p :: "Entity option" and lvs
    by (induction lvs) auto
  from c have "size c < size e"
    by (cases e) (auto split: option.splits dest: mem mem')
  then show "((c, x), (e, path)) \<in> measure (\<lambda>(e, path). size e)" by simp
qed

function forEachMountable :: "Entity \<Rightarrow> Entity list \<Rightarrow> (Entity \<times> Entity list) list" where
  "forEachMountable c path =
     concat (map (\<lambda>child.
        let childPath = path @ [child]
        in if isMountable child then [(child, childPath)] else forEachMountable child childPath)
      (children c))"
  by pat_completeness auto
termination
proof (relation "measure (\<lambda>(e, path). size e)")
  show "wf (measure (\<lambda>(e, path). size e))" by simp
next
  fix e :: Entity and path x :: "Entity list" and c
  assume c: "c \<in> set (children e)"
  have mem: "(s, z, p) \<in> set ps \<Longrightarrow>
      size_option size p < size_list (size_prod (\<lambda>x. 0) (size_prod (\<lambda>x. 0) (size_option size))) ps"
    for s z :: nat and p :: "Entity option" and ps
    by (induction ps) auto
  have mem': "(n, z, p) \<in> set lvs \<Longrightarrow>
      size_option size p < size_list (size_prod (\<lambda>x. 0) (size_prod (\<lambda>x. 0) (size_option size))) lvs"
    for n :: string and z :: nat and p :: "Entity option" and lvs
    by (induction lvs) auto
  from c have "size c < size e"
    by (cases e) (auto split: option.splits dest: mem mem')
  then show "((c, x), (e, path)) \<in> measure (\<lambda>(e, path). size e)" by simp
qed

definition ForEachEntity :: "Entity \<Rightarrow> (Entity \<times> Entity list) list" where
  "ForEachEntity pt = forEachEntity pt []"

definition ForEachMountable :: "Entity \<Rightarrow> (Entity \<times> Entity list) list" where
  "ForEachMountable pt = forEachMountable pt [pt]"

section \<open>Outcomes of a call\<close>

text \<open>
  A Go call either panics (the process stops), or returns. \<open>Error\<close> is the non-nil error
  returned by a traversal callback, which makes the traversal stop and return it. The
  three errors of device.go are told apart by the call that makes them:
  \<open>UnknownFsType\<close> carries the message of the error, as \<open>fmt.Errorf\<close> formats it;
  \<open>DeviceNameCollision\<close> carries the device name that is the operand of its format;
  the message of \<open>NoRootMount\<close> is a constant.
\<close>

datatype panic =
    PanicDeviceNil
  | PanicUnsupportedDeviceType
  | PanicNoPartitionTable
  | PanicSliceBounds

datatype error =
    UnknownFsType string
  | DeviceNameCollision string
  | NoRootMount

datatype 'a result = Panic panic | Error error | Ok 'a

text \<open>Running a callback over the calls of a traversal, threading the captured variables.\<close>

fun forEach :: "('s \<Rightarrow> 'v \<Rightarrow> 's result) \<Rightarrow> 'v list \<Rightarrow> 's \<Rightarrow> 's result" where
  "forEach cb [] st = Ok st"
| "forEach cb (v # vs) st =
     (case cb st v of
        Panic p \<Rightarrow> Panic p
      | Error e \<Rightarrow> Error e
      | Ok st' \<Rightarrow> forEach cb vs st')"

section \<open>Devices\<close>

text \<open>
  The struct \<open>Device\<close> of device.go. \<open>Options\<close> is an interface value: nil in the zero
  \<open>Device\<close>, otherwise a pointer to one of the option structs, which
  \<open>reflect.DeepEqual\<close> compares by their contents.
\<close>

record LoopbackDeviceOptions =
  Filename :: string
  Start :: nat
  Size :: nat
  SectorSize :: "nat option"
  Lock :: bool

record LUKS2DeviceOptions =
  Passphrase :: string

record LVM2LVDeviceOptions =
  Volume :: string

datatype DeviceOptions =
    NilDeviceOptions
  | LoopbackOptions LoopbackDeviceOptions
  | LUKS2Options LUKS2DeviceOptions
  | LVM2LVOptions LVM2LVDeviceOptions

record Device =
  Type :: string
  Parent :: string
  Options :: DeviceOptions

text \<open>
  Modelled from the spec: the three device constructors are not part of the sources at
  hand. A device descriptor has a kind, an optional parent and the options of its kind;
  the loopback device has no parent, the other two are chained to the parent they are
  given.
\<close>

definition NewLoopbackDevice :: "LoopbackDeviceOptions \<Rightarrow> Device" where
  "NewLoopbackDevice options =
     \<lparr> Device.Type = ''org.osbuild.loopback'', Parent = [],
       Device.Options = LoopbackOptions options \<rparr>"

definition NewLUKS2Device :: "string \<Rightarrow> LUKS2DeviceOptions \<Rightarrow> Device" where
  "NewLUKS2Device parent options =
     \<lparr> Device.Type = ''org.osbuild.luks2'', Parent = parent,
       Device.Options = LUKS2Options options \<rparr>"

definition NewLVM2LVDevice :: "string \<Rightarrow> LVM2LVDeviceOptions \<Rightarrow> Device" where
  "NewLVM2LVDevice parent options =
     \<lparr> Device.Type = ''org.osbuild.lvm2.lv'', Parent = parent,
       Device.Options = LVM2LVOptions options \<rparr>"

text \<open>
  A Go \<open>map[string]Device\<close> is an association list with one entry for each key:
  \<open>m[k] = v\<close> is \<open>AList.update k v m\<close>, \<open>delete(m, k)\<close> is \<open>AList.delete k m\<close>, and
  reading \<open>m[k]\<close> gives the zero \<open>Device\<close> when the key is absent.
\<close>

type_synonym DeviceMap = "(string \<times> Device) list"

definition zeroDevice :: Device where
  "zeroDevice = \<lparr> Device.Type = [], Parent = [], Device.Options = NilDeviceOptions \<rparr>"

definition index :: "DeviceMap \<Rightarrow> string \<Rightarrow> Device" where
  "index m k = (case map_of m k of None \<Rightarrow> zeroDevice | Some d \<Rightarrow> d)"

section \<open>Name resolver: deviceName\<close>

fun deviceName :: "Entity option \<Rightarrow> string result" where
  "deviceName None = Panic PanicDeviceNil"
| "deviceName (Some (Filesystem t mountpoint)) = Ok (pathEscape mountpoint)"
| "deviceName (Some (LUKSContainer payload p)) =
     (if length (LUKSContainer_fields.UUID payload) < 4 then Panic PanicSliceBounds
      else Ok (''luks-'' @ take 4 (LUKSContainer_fields.UUID payload)))"
| "deviceName (Some (LVMVolumeGroup name lvs)) = Ok name"
| "deviceName (Some (LVMLogicalVolume name sz p)) = Ok name"
| "deviceName (Some (PartitionTable b ps)) = Panic PanicUnsupportedDeviceType"
| "deviceName (Some (Partition start sz p)) = Panic PanicUnsupportedDeviceType"

section \<open>Device chain builder: getDevices\<close>

text \<open>
  The loop of \<open>getDevices\<close> over the rest of the path, with its three variables: \<open>pt\<close>
  (the table seen last, used for its \<open>BytesToSectors\<close> only, \<open>None\<close> for nil), the map
  \<open>do\<close> and \<open>parent\<close>.
\<close>

fun getDevices_loop ::
  "Entity list \<Rightarrow> string \<Rightarrow> bool \<Rightarrow> (nat \<Rightarrow> nat) option \<Rightarrow> DeviceMap \<Rightarrow> string
     \<Rightarrow> (DeviceMap \<times> string) result" where
  "getDevices_loop [] filename lockLoopback pt do parent = Ok (do, parent)"
| "getDevices_loop (PartitionTable BytesToSectors ps # path) filename lockLoopback pt do parent =
     getDevices_loop path filename lockLoopback (Some BytesToSectors) do parent"
| "getDevices_loop (Partition start sz payload # path) filename lockLoopback pt do parent =
     (case pt of
        None \<Rightarrow> Panic PanicNoPartitionTable
      | Some BytesToSectors \<Rightarrow>
          let lbopt = \<lparr> Filename = filename, Start = BytesToSectors start,
                        LoopbackDeviceOptions.Size = BytesToSectors sz,
                        LoopbackDeviceOptions.SectorSize = None, Lock = lockLoopback \<rparr>
          in (case deviceName payload of
                Panic p \<Rightarrow> Panic p
              | Error e \<Rightarrow> Error e
              | Ok name \<Rightarrow>
                  getDevices_loop path filename lockLoopback pt
                    (AList.update name (NewLoopbackDevice lbopt) do) name))"
| "getDevices_loop (LUKSContainer e payload # path) filename lockLoopback pt do parent =
     (let lo = \<lparr> LUKS2DeviceOptions.Passphrase = LUKSContainer_fields.Passphrase e \<rparr>
      in (case deviceName payload of
            Panic p \<Rightarrow> Panic p
          | Error e \<Rightarrow> Error e
          | Ok name \<Rightarrow>
              getDevices_loop path filename lockLoopback pt
                (AList.update name (NewLUKS2Device parent lo) do) name))"
| "getDevices_loop (LVMLogicalVolume lvname sz payload # path) filename lockLoopback pt do parent =
     (let lo = \<lparr> Volume = lvname \<rparr>
      in (case deviceName payload of
            Panic p \<Rightarrow> Panic p
          | Error e \<Rightarrow> Error e
          | Ok name \<Rightarrow>
              getDevices_loop path filename lockLoopback pt
                (AList.update name (NewLVM2LVDevice parent lo) do) name))"
| "getDevices_loop (LVMVolumeGroup name lvs # path) filename lockLoopback pt do parent =
     getDevices_loop path filename lockLoopback pt do parent"
| "getDevices_loop (Filesystem t mountpoint # path) filename lockLoopback pt do parent =
     getDevices_loop path filename lockLoopback pt do parent"

definition getDevices :: "Entity list \<Rightarrow> string \<Rightarrow> bool \<Rightarrow> (DeviceMap \<times> string) result" where
  "getDevices path filename lockLoopback = getDevices_loop path filename lockLoopback None [] []"

section \<open>Stages\<close>

text \<open>
  Modelled from the spec: the stage constructors and their option structs live in other
  files of the package, which are not part of the sources at hand. An operation has a
  name, the options of its kind and the devices it refers to; the option fields are the
  ones device.go fills. The names of the four stages that device.go's comments mention
  are taken from there.
\<close>

record Argon2id =
  Method :: string
  Iterations :: nat
  Memory :: nat
  Parallelism :: nat

record LUKS2CreateStageOptions =
  UUID :: string
  Passphrase :: string
  Cipher :: string
  Label :: string
  Subsystem :: string
  SectorSize :: nat
  PBKDF :: Argon2id

record ClevisLuksBindStageOptions =
  Passphrase :: string
  Pin :: string
  Policy :: string

record LogicalVolume =
  Name :: string
  Size :: string

record LVM2CreateStageOptions =
  Volumes :: "LogicalVolume list"

record LVM2MetadataStageOptions =
  VGName :: string

record LUKS2RemoveKeyStageOptions =
  Passphrase :: string

datatype StageOptions =
    LUKS2CreateOptions LUKS2CreateStageOptions
  | ClevisLuksBindOptions ClevisLuksBindStageOptions
  | LVM2CreateOptions LVM2CreateStageOptions
  | LVM2MetadataOptions LVM2MetadataStageOptions
  | LUKS2RemoveKeyOptions LUKS2RemoveKeyStageOptions

record Stage =
  Type :: string
  Options :: StageOptions
  Devices :: DeviceMap




definition NewLVM2MetadataStage :: "LVM2MetadataStageOptions \<Rightarrow> DeviceMap \<Rightarrow> Stage" where
  "NewLVM2MetadataStage options devices =
     \<lparr> Type = ''org.osbuild.lvm2.metadata'', Options = LVM2MetadataOptions options,
       Devices = devices \<rparr>"

definition NewLUKS2RemoveKeyStage :: "LUKS2RemoveKeyStageOptions \<Rightarrow> DeviceMap \<Rightarrow> Stage" where
  "NewLUKS2RemoveKeyStage options devices =
     \<lparr> Type = ''org.osbuild.luks2.remove-key'', Options = LUKS2RemoveKeyOptions options,
       Devices = devices \<rparr>"

text \<open>
  The three statements that every branch of the two stage generators runs on the result of
  \<open>getDevices\<close>: read the last device, delete its key, store it under \<open>"device"\<close>.
\<close>

definition renameLastDevice :: "DeviceMap \<Rightarrow> string \<Rightarrow> DeviceMap" where
  "renameLastDevice stageDevices lastName =
     (let lastDevice = index stageDevices lastName;
          stageDevices1 = AList.delete lastName stageDevices
      in AList.update ''device'' lastDevice stageDevices1)"

text \<open>
  \<open>path[:len(path)-1]\<close>: the path without its last element; slicing an empty path
  panics.
\<close>

definition dropLast :: "Entity list \<Rightarrow> Entity list result" where
  "dropLast path = (if path = [] then Panic PanicSliceBounds else Ok (butlast path))"

section \<open>Creation-stage compiler: GenDeviceCreationStages\<close>



section \<open>Finish-stage compiler: GenDeviceFinishStages\<close>

text \<open>
  The closure \<open>genStages\<close> of \<open>GenDeviceFinishStages\<close>; its captured variables are the pair
  (\<open>stages\<close>, \<open>removeKeyStages\<close>).
\<close>

fun genFinishStages ::
  "string \<Rightarrow> Stage list \<times> Stage list \<Rightarrow> Entity \<times> Entity list \<Rightarrow> (Stage list \<times> Stage list) result" where
  "genFinishStages filename (stages, removeKeyStages) (LUKSContainer ent payload, path) =
     (case dropLast path of
        Panic p \<Rightarrow> Panic p
      | Error e \<Rightarrow> Error e
      | Ok path' \<Rightarrow>
     (case getDevices path' filename True of
        Panic p \<Rightarrow> Panic p
      | Error e \<Rightarrow> Error e
      | Ok (stageDevices0, lastName) \<Rightarrow>
          let stageDevices = renameLastDevice stageDevices0 lastName
          in (case Clevis ent of
                None \<Rightarrow> Ok (stages, removeKeyStages)
              | Some clevis \<Rightarrow>
                  if RemovePassphrase clevis
                  then Ok (stages, removeKeyStages @ [NewLUKS2RemoveKeyStage
                             \<lparr> LUKS2RemoveKeyStageOptions.Passphrase = LUKSContainer_fields.Passphrase ent \<rparr>
                             stageDevices])
                  else Ok (stages, removeKeyStages))))"
| "genFinishStages filename (stages, removeKeyStages) (LVMVolumeGroup name lvs, path) =
     (case dropLast path of
        Panic p \<Rightarrow> Panic p
      | Error e \<Rightarrow> Error e
      | Ok path' \<Rightarrow>
     (case getDevices path' filename True of
        Panic p \<Rightarrow> Panic p
      | Error e \<Rightarrow> Error e
      | Ok (stageDevices0, lastName) \<Rightarrow>
          let stageDevices = renameLastDevice stageDevices0 lastName;
              stage = NewLVM2MetadataStage \<lparr> VGName = name \<rparr> stageDevices
          in Ok (stages @ [stage], removeKeyStages)))"
| "genFinishStages filename (stages, removeKeyStages) (e, path) = Ok (stages, removeKeyStages)"

definition GenDeviceFinishStages :: "Entity \<Rightarrow> string \<Rightarrow> Stage list result" where
  "GenDeviceFinishStages pt filename =
     (case forEach (genFinishStages filename) (ForEachEntity pt) ([], []) of
        Panic p \<Rightarrow> Panic p
      | Error e \<Rightarrow> Error e
      | Ok (stages, removeKeyStages) \<Rightarrow> Ok (stages @ removeKeyStages))"

section \<open>Mount/device consistency resolver: genMountsDevicesFromPt\<close>

text \<open>
  Modelled from the spec: the struct \<open>Mount\<close> and its four constructors are not part of
  the sources at hand. A mount record has a name, the kind of its filesystem, the
  identifier of its source device and its target path; each constructor takes (name,
  source, target) and builds the record of its kind.
\<close>

record Mount =
  Name :: string
  Type :: string
  Source :: string
  Target :: string

definition NewXfsMount :: "string \<Rightarrow> string \<Rightarrow> string \<Rightarrow> Mount" where
  "NewXfsMount name source target =
     \<lparr> Mount.Name = name, Mount.Type = ''org.osbuild.xfs'', Source = source, Target = target \<rparr>"

definition NewFATMount :: "string \<Rightarrow> string \<Rightarrow> string \<Rightarrow> Mount" where
  "NewFATMount name source target =
     \<lparr> Mount.Name = name, Mount.Type = ''org.osbuild.fat'', Source = source, Target = target \<rparr>"

definition NewExt4Mount :: "string \<Rightarrow> string \<Rightarrow> string \<Rightarrow> Mount" where
  "NewExt4Mount name source target =
     \<lparr> Mount.Name = name, Mount.Type = ''org.osbuild.ext4'', Source = source, Target = target \<rparr>"

definition NewBtrfsMount :: "string \<Rightarrow> string \<Rightarrow> string \<Rightarrow> Mount" where
  "NewBtrfsMount name source target =
     \<lparr> Mount.Name = name, Mount.Type = ''org.osbuild.btrfs'', Source = source, Target = target \<rparr>"

text \<open>
  The \<open>switch t\<close> of the closure \<open>genMounts\<close>: the mount for a filesystem type, \<open>None\<close>
  in the default case.
\<close>

definition switchFSType :: "string \<Rightarrow> string \<Rightarrow> string \<Rightarrow> Mount option" where
  "switchFSType t name mountpoint =
     (if t = ''xfs'' then Some (NewXfsMount name name mountpoint)
      else if t = ''vfat'' then Some (NewFATMount name name mountpoint)
      else if t = ''ext4'' then Some (NewExt4Mount name name mountpoint)
      else if t = ''btrfs'' then Some (NewBtrfsMount name name mountpoint)
      else None)"

text \<open>
  The loop \<open>for devName := range stageDevices\<close>. Go leaves the order of the keys of a
  \<open>range\<close> over a map open, so the loop runs over a list of keys that the caller supplies.
\<close>

fun mergeDevices :: "string list \<Rightarrow> DeviceMap \<Rightarrow> DeviceMap \<Rightarrow> DeviceMap result" where
  "mergeDevices [] stageDevices devices = Ok devices"
| "mergeDevices (devName # keys) stageDevices devices =
     (case map_of devices devName of
        Some existingDevice \<Rightarrow>
          if existingDevice \<noteq> index stageDevices devName
          then Error (DeviceNameCollision devName)
          else mergeDevices keys stageDevices
                 (AList.update devName (index stageDevices devName) devices)
      | None \<Rightarrow>
          mergeDevices keys stageDevices
            (AList.update devName (index stageDevices devName) devices))"

text \<open>The variables that the closure \<open>genMounts\<close> captures.\<close>

record MountState =
  devices :: DeviceMap
  mounts :: "Mount list"
  fsRootMntName :: string

text \<open>
  The closure \<open>genMounts\<close>. \<open>rng\<close> gives the order in which \<open>range\<close> goes through the
  keys of a map. In the default case of the \<open>switch\<close> the filesystem type is appended to
  the format string of \<open>fmt.Errorf\<close>, which has no operand.
\<close>

fun genMounts ::
  "(DeviceMap \<Rightarrow> string list) \<Rightarrow> string \<Rightarrow> MountState \<Rightarrow> Entity \<times> Entity list
     \<Rightarrow> MountState result" where
  "genMounts rng filename st (mnt, path) =
     (case getDevices path filename False of
        Panic p \<Rightarrow> Panic p
      | Error e \<Rightarrow> Error e
      | Ok (stageDevices, name) \<Rightarrow>
          let mountpoint = GetMountpoint mnt;
              st1 = (if mountpoint = ''/'' then st\<lparr> fsRootMntName := name \<rparr> else st);
              t = GetFSType mnt
          in (case switchFSType t name mountpoint of
                None \<Rightarrow> Error (UnknownFsType (Errorf (''unknown fs type '' @ t)))
              | Some mount \<Rightarrow>
                  let st2 = st1\<lparr> mounts := mounts st1 @ [mount] \<rparr>
                  in (case mergeDevices (rng stageDevices) stageDevices (devices st2) of
                        Panic p \<Rightarrow> Panic p
                      | Error e \<Rightarrow> Error e
                      | Ok devices' \<Rightarrow> Ok (st2\<lparr> devices := devices' \<rparr>))))"

text \<open>The values of the three captured variables before the traversal.\<close>

definition initialMountState :: MountState where
  "initialMountState = \<lparr> devices = [], mounts = [], fsRootMntName = [] \<rparr>"

text \<open>
  \<open>genMountsDevicesFromPt\<close> returns four values; a nil slice and a nil map are the empty
  list. \<open>sort.Slice\<close> with the comparison \<open>mounts[i].Target < mounts[j].Target\<close> is the
  sort by the target under the byte-wise order of strings (the order in which
  \<open>sort.Slice\<close> leaves mounts of the same target is not fixed by Go; \<open>sort_key\<close> keeps
  them as they were).
\<close>

definition genMountsDevicesFromPt ::
  "(DeviceMap \<Rightarrow> string list) \<Rightarrow> string \<Rightarrow> Entity
     \<Rightarrow> (string \<times> Mount list \<times> DeviceMap \<times> error option) result" where
  "genMountsDevicesFromPt rng filename pt =
     (case forEach (genMounts rng filename) (ForEachMountable pt) initialMountState of
        Panic p \<Rightarrow> Panic p
      | Error err \<Rightarrow> Ok ([], [], [], Some err)
      | Ok st \<Rightarrow>
          let mounts' = sort_key Target (mounts st)
          in if fsRootMntName st = [] then Ok ([], [], [], Some NoRootMount)
             else Ok (fsRootMntName st, mounts', devices st, None))"

section \<open>Notions used to state the properties\<close>

text \<open>
  The escape of one byte, for the reading of \<open>pathEscape\<close> as a single pass over the
  trimmed path.
\<close>

definition escapeByte :: "char \<Rightarrow> string" where
  "escapeByte c =
     (if c = backslash then backslash # ''x5c''
      else if c = CHR ''-'' then backslash # ''x2d''
      else if c = CHR ''/'' then ''-''
      else [c])"

text \<open>Example inputs: an encryption container with a given UUID and key-escrow policy.\<close>

definition exampleContainer :: "string \<Rightarrow> ClevisBind option \<Rightarrow> LUKSContainer_fields" where
  "exampleContainer uuid clevis =
     \<lparr> LUKSContainer_fields.UUID = uuid,
       LUKSContainer_fields.Passphrase = ''secret'',
       LUKSContainer_fields.Cipher = ''aes-xts-plain64'',
       LUKSContainer_fields.Label = ''crypt_root'',
       LUKSContainer_fields.Subsystem = [],
       LUKSContainer_fields.SectorSize = 512,
       LUKSContainer_fields.PBKDF =
         \<lparr> disk_Argon2id.Iterations = 4, disk_Argon2id.Memory = 32,
           disk_Argon2id.Parallelism = 1 \<rparr>,
       Clevis = clevis \<rparr>"

text \<open>
  A decoder for the escaped form, and the segments of a path: the fields between the
  \<open>/\<close> of the path without its leading and trailing \<open>/\<close>.
\<close>

function pathUnescape :: "string \<Rightarrow> string" where
  "pathUnescape [] = []"
| "pathUnescape (c # cs) =
     (if c = CHR ''-'' then CHR ''/'' # pathUnescape cs
      else if c = backslash \<and> take 3 cs = ''x5c'' then backslash # pathUnescape (drop 3 cs)
      else if c = backslash \<and> take 3 cs = ''x2d'' then CHR ''-'' # pathUnescape (drop 3 cs)
      else c # pathUnescape cs)"
  by pat_completeness auto
termination
  by (relation "measure length") auto

fun splitSlash :: "string \<Rightarrow> string list" where
  "splitSlash [] = [[]]"
| "splitSlash (c # cs) =
     (if c = CHR ''/'' then [] # splitSlash cs
      else (case splitSlash cs of [] \<Rightarrow> [[c]] | s # ss \<Rightarrow> (c # s) # ss))"

definition pathSegments :: "string \<Rightarrow> string list" where
  "pathSegments p = splitSlash (Trim p ''/'')"

text \<open>
  The names of the volume groups and the passphrases of the encryption containers whose
  key-escrow policy asks for the removal of the passphrase, among a list of entities, in
  the order of the list; and what it is for a stage to be the rename of a volume group or
  the removal of a passphrase.
\<close>

fun volumeGroupNames :: "Entity list \<Rightarrow> string list" where
  "volumeGroupNames [] = []"
| "volumeGroupNames (LVMVolumeGroup name lvs # es) = name # volumeGroupNames es"
| "volumeGroupNames (e # es) = volumeGroupNames es"

fun removalPassphrases :: "Entity list \<Rightarrow> string list" where
  "removalPassphrases [] = []"
| "removalPassphrases (LUKSContainer c payload # es) =
     (case Clevis c of
        None \<Rightarrow> removalPassphrases es
      | Some clevis \<Rightarrow>
          if RemovePassphrase clevis
          then LUKSContainer_fields.Passphrase c # removalPassphrases es
          else removalPassphrases es)"
| "removalPassphrases (e # es) = removalPassphrases es"

definition isRename :: "string \<Rightarrow> Stage \<Rightarrow> bool" where
  "isRename name s \<longleftrightarrow>
     Stage.Type s = ''org.osbuild.lvm2.metadata'' \<and>
     Stage.Options s = LVM2MetadataOptions \<lparr> VGName = name \<rparr>"

definition isRemoveKey :: "string \<Rightarrow> Stage \<Rightarrow> bool" where
  "isRemoveKey passphrase s \<longleftrightarrow>
     Stage.Type s = ''org.osbuild.luks2.remove-key'' \<and>
     Stage.Options s =
       LUKS2RemoveKeyOptions \<lparr> LUKS2RemoveKeyStageOptions.Passphrase = passphrase \<rparr>"

text \<open>
  Example input: a table with one partition that holds an encryption container around the
  volume group \<open>vg00\<close> with the logical volume \<open>lv_root\<close> of 2147483648 bytes.
\<close>

definition exampleEncryptedTree :: "ClevisBind option \<Rightarrow> Entity" where
  "exampleEncryptedTree clevis =
     PartitionTable (\<lambda>bytes. bytes div 512)
       [(1048576, 4294967296,
         Some (LUKSContainer (exampleContainer ''abcd1234-5678'' clevis)
           (Some (LVMVolumeGroup ''vg00''
             [(''lv_root'', 2147483648, Some (Filesystem ''xfs'' ''/''))]))))]"

definition exampleClevis :: ClevisBind where
  "exampleClevis = \<lparr> ClevisBind.Pin = ''tpm2'', ClevisBind.Policy = ''{}'', RemovePassphrase = True \<rparr>"




text \<open>
  A path is an ancestor directory of another one when it is a proper prefix of it that ends
  at a \<open>/\<close>: either the prefix ends with \<open>/\<close> (as the root does) or the next byte of the
  longer path is \<open>/\<close>.
\<close>

definition isAncestorDir :: "string \<Rightarrow> string \<Rightarrow> bool" where
  "isAncestorDir a d \<longleftrightarrow>
     a \<noteq> [] \<and> length a < length d \<and> take (length a) d = a \<and>
     (last a = CHR ''/'' \<or> d ! length a = CHR ''/'')"

text \<open>Example input: the table of the scenario with a root and an EFI partition.\<close>

definition examplePlainTree :: "string \<Rightarrow> Entity" where
  "examplePlainTree fstype =
     PartitionTable (\<lambda>bytes. bytes div 512)
       [(1048576, 209715200, Some (Filesystem ''vfat'' ''/boot/efi'')),
        (210763776, 4294967296, Some (Filesystem fstype ''/''))]"

text \<open>
  The mount record of a leaf: the record that the \<open>switch\<close> builds for the filesystem type
  and the mountpoint of the leaf, named after the last device of the leaf's chain.
\<close>

definition mountOfLeaf :: "string \<Rightarrow> Entity \<times> Entity list \<Rightarrow> Mount \<Rightarrow> bool" where
  "mountOfLeaf filename v m \<longleftrightarrow>
     (\<exists>stageDevices name.
        getDevices (snd v) filename False = Ok (stageDevices, name) \<and>
        switchFSType (GetFSType (fst v)) name (GetMountpoint (fst v)) = Some m)"

text \<open>
  A device chain of one of the leaves \<open>V\<close> binds the name \<open>k\<close> to the descriptor \<open>d\<close>.
\<close>

definition chainEntry ::
  "string \<Rightarrow> (Entity \<times> Entity list) set \<Rightarrow> string \<Rightarrow> Device \<Rightarrow> bool" where
  "chainEntry filename V k d \<longleftrightarrow>
     (\<exists>v\<in>V. \<exists>stageDevices name.
        getDevices (snd v) filename False = Ok (stageDevices, name) \<and>
        map_of stageDevices k = Some d)"

text \<open>
  Example input: two partitions with different extents whose filesystems have the same
  mountpoint, so that the two loopback devices get the same name.
\<close>

definition exampleCollidingTree :: Entity where
  "exampleCollidingTree =
     PartitionTable (\<lambda>bytes. bytes div 512)
       [(1048576, 209715200, Some (Filesystem ''ext4'' ''/'')),
        (210763776, 4294967296, Some (Filesystem ''xfs'' ''/''))]"

text \<open>
  Example input: a table whose only partition holds the root filesystem, with a filesystem
  type that has a \<open>%\<close>.
\<close>

definition exampleFormatTree :: Entity where
  "exampleFormatTree =
     PartitionTable (\<lambda>bytes. bytes div 512)
       [(1048576, 4294967296, Some (Filesystem ''%d'' ''/''))]"

text \<open>Example input: a table whose only filesystem is not mounted at the root.\<close>

definition exampleRootlessTree :: Entity where
  "exampleRootlessTree =
     PartitionTable (\<lambda>bytes. bytes div 512)
       [(1048576, 209715200, Some (Filesystem ''vfat'' ''/boot/efi''))]"







section \<open>Unfolding the traversals\<close>

text \<open>
  The defining equations of the two traversals apply to every entity, so they are taken
  out of the simplifier's rules and replaced by one equation for each kind of entity.
\<close>

declare forEachEntity.simps [simp del]
declare forEachMountable.simps [simp del]

lemma forEachEntity_PartitionTable [simp]:
  "forEachEntity (PartitionTable b ps) path =
     (PartitionTable b ps, path @ [PartitionTable b ps]) #
     concat (map (\<lambda>(start, sz, payload).
        forEachEntity (Partition start sz payload) (path @ [PartitionTable b ps])) ps)"
  by (subst forEachEntity.simps) (simp add: Let_def comp_def case_prod_unfold)

lemma forEachEntity_LVMVolumeGroup [simp]:
  "forEachEntity (LVMVolumeGroup name lvs) path =
     (LVMVolumeGroup name lvs, path @ [LVMVolumeGroup name lvs]) #
     concat (map (\<lambda>(n, sz, payload).
        forEachEntity (LVMLogicalVolume n sz payload) (path @ [LVMVolumeGroup name lvs])) lvs)"
  by (subst forEachEntity.simps) (simp add: Let_def comp_def case_prod_unfold)

lemma forEachEntity_Partition [simp]:
  "forEachEntity (Partition start sz payload) path =
     (Partition start sz payload, path @ [Partition start sz payload]) #
     (case payload of None \<Rightarrow> []
      | Some e \<Rightarrow> forEachEntity e (path @ [Partition start sz payload]))"
  by (subst forEachEntity.simps) (simp add: Let_def split: option.splits)

lemma forEachEntity_LUKSContainer [simp]:
  "forEachEntity (LUKSContainer c payload) path =
     (LUKSContainer c payload, path @ [LUKSContainer c payload]) #
     (case payload of None \<Rightarrow> []
      | Some e \<Rightarrow> forEachEntity e (path @ [LUKSContainer c payload]))"
  by (subst forEachEntity.simps) (simp add: Let_def split: option.splits)

lemma forEachEntity_LVMLogicalVolume [simp]:
  "forEachEntity (LVMLogicalVolume name sz payload) path =
     (LVMLogicalVolume name sz payload, path @ [LVMLogicalVolume name sz payload]) #
     (case payload of None \<Rightarrow> []
      | Some e \<Rightarrow> forEachEntity e (path @ [LVMLogicalVolume name sz payload]))"
  by (subst forEachEntity.simps) (simp add: Let_def split: option.splits)

lemma forEachEntity_Filesystem [simp]:
  "forEachEntity (Filesystem t mountpoint) path =
     [(Filesystem t mountpoint, path @ [Filesystem t mountpoint])]"
  by (subst forEachEntity.simps) (simp add: Let_def)

text \<open>What \<open>forEachMountable\<close> does with one child.\<close>

definition visitChild :: "Entity list \<Rightarrow> Entity \<Rightarrow> (Entity \<times> Entity list) list" where
  "visitChild path child =
     (if isMountable child then [(child, path @ [child])]
      else forEachMountable child (path @ [child]))"

lemma forEachMountable_children:
  "forEachMountable c path = concat (map (visitChild path) (children c))"
  by (subst forEachMountable.simps) (simp add: visitChild_def [abs_def] Let_def)

lemma visitChild_Filesystem [simp]:
  "visitChild path (Filesystem t mountpoint) =
     [(Filesystem t mountpoint, path @ [Filesystem t mountpoint])]"
  by (simp add: visitChild_def)

lemma visitChild_Partition [simp]:
  "visitChild path (Partition start sz payload) =
     (case payload of None \<Rightarrow> []
      | Some e \<Rightarrow> visitChild (path @ [Partition start sz payload]) e)"
  by (simp add: visitChild_def forEachMountable_children split: option.splits)

lemma visitChild_LUKSContainer [simp]:
  "visitChild path (LUKSContainer c payload) =
     (case payload of None \<Rightarrow> []
      | Some e \<Rightarrow> visitChild (path @ [LUKSContainer c payload]) e)"
  by (simp add: visitChild_def forEachMountable_children split: option.splits)

lemma visitChild_LVMLogicalVolume [simp]:
  "visitChild path (LVMLogicalVolume name sz payload) =
     (case payload of None \<Rightarrow> []
      | Some e \<Rightarrow> visitChild (path @ [LVMLogicalVolume name sz payload]) e)"
  by (simp add: visitChild_def forEachMountable_children split: option.splits)

lemma visitChild_PartitionTable [simp]:
  "visitChild path (PartitionTable b ps) =
     concat (map (\<lambda>(start, sz, payload).
        visitChild (path @ [PartitionTable b ps]) (Partition start sz payload)) ps)"
  by (simp add: visitChild_def forEachMountable_children comp_def case_prod_unfold
      del: visitChild_Partition)

lemma visitChild_LVMVolumeGroup [simp]:
  "visitChild path (LVMVolumeGroup name lvs) =
     concat (map (\<lambda>(n, sz, payload).
        visitChild (path @ [LVMVolumeGroup name lvs]) (LVMLogicalVolume n sz payload)) lvs)"
  by (simp add: visitChild_def forEachMountable_children comp_def case_prod_unfold
      del: visitChild_LVMLogicalVolume)

lemma ForEachMountable_PartitionTable:
  "ForEachMountable (PartitionTable b ps) =
     concat (map (\<lambda>(start, sz, payload).
        visitChild [PartitionTable b ps] (Partition start sz payload)) ps)"
  by (simp add: ForEachMountable_def forEachMountable_children comp_def case_prod_unfold
      del: visitChild_Partition)

section \<open>Properties of pathEscape\<close>

lemma ReplaceAll_append [simp]:
  "ReplaceAll (xs @ ys) old new = ReplaceAll xs old new @ ReplaceAll ys old new"
  by (induction xs) auto

lemma escapeChars_backslash:
  "escapeChars s backslash = ReplaceAll s backslash (backslash # ''x5c'')"
  by (simp add: escapeChars_def backslash_def Sprintf_x.simps digit_char_def)

lemma escapeChars_dash:
  "escapeChars s (CHR ''-'') = ReplaceAll s (CHR ''-'') (backslash # ''x2d'')"
  by (simp add: escapeChars_def Sprintf_x.simps digit_char_def)

lemma escape_three_passes:
  "ReplaceAll (ReplaceAll (ReplaceAll s backslash (backslash # ''x5c''))
       (CHR ''-'') (backslash # ''x2d''))
     (CHR ''/'') ''-'' = concat (map escapeByte s)"
  by (induction s) (auto simp: escapeByte_def backslash_def)

lemma pathEscape_root: "pathEscape [] = ''-''" "pathEscape ''/'' = ''-''"
  by (simp_all add: pathEscape_def)

lemma pathEscape_concat:
  "p \<noteq> [] \<Longrightarrow> p \<noteq> ''/'' \<Longrightarrow> pathEscape p = concat (map escapeByte (Trim p ''/''))"
  by (simp add: pathEscape_def escapeChars_backslash escapeChars_dash Let_def
      escape_three_passes)

text \<open>
  C8. \<open>pathEscape\<close> maps the empty string and \<open>/\<close> to \<open>-\<close>. Any other path is trimmed of
  its leading and trailing \<open>/\<close>, then every backslash is replaced by \<open>\x5c\<close>, then every
  \<open>-\<close> by \<open>\x2d\<close>, then every \<open>/\<close> by \<open>-\<close>. The three replacements do not act on each
  other's output: the result is the trimmed path with each byte escaped on its own, a
  backslash as \<open>\x5c\<close>, a \<open>-\<close> as \<open>\x2d\<close>, a \<open>/\<close> as \<open>-\<close>, any other byte as itself.
\<close>

theorem pathEscape_steps:
  "pathEscape [] = ''-'' \<and> pathEscape ''/'' = ''-'' \<and>
   (p \<noteq> [] \<and> p \<noteq> ''/'' \<longrightarrow>
      pathEscape p =
        ReplaceAll (ReplaceAll (ReplaceAll (Trim p ''/'') backslash (backslash # ''x5c''))
          (CHR ''-'') (backslash # ''x2d'')) (CHR ''/'') ''-'' \<and>
      pathEscape p = concat (map escapeByte (Trim p ''/'')))"
  by (simp add: pathEscape_def escapeChars_backslash escapeChars_dash Let_def
      escape_three_passes)

theorem pathEscape_steps_witness:
  "pathEscape (''/a-b'' @ [backslash] @ ''c/d/'') =
     ''a'' @ [backslash] @ ''x2db'' @ [backslash] @ ''x5cc-d''"
  using pathEscape_steps [of "''/a-b'' @ [backslash] @ ''c/d/''"]
  by (simp add: escapeByte_def Trim_def backslash_def)

section \<open>Properties of deviceName\<close>

text \<open>
  C10. For an encryption container, \<open>deviceName\<close> takes the first four bytes of the UUID
  without a check. When the UUID has at least four bytes the result is \<open>luks-\<close> followed
  by them, and neither an error nor the panic for an unsupported entity can occur. When
  the UUID is shorter, the slice expression panics: the call does not return an error,
  it stops the process.
\<close>

theorem deviceName_LUKSContainer:
  "(4 \<le> length (LUKSContainer_fields.UUID c) \<longrightarrow>
      deviceName (Some (LUKSContainer c payload)) =
        Ok (''luks-'' @ take 4 (LUKSContainer_fields.UUID c))) \<and>
   (length (LUKSContainer_fields.UUID c) < 4 \<longrightarrow>
      deviceName (Some (LUKSContainer c payload)) = Panic PanicSliceBounds) \<and>
   (\<forall>e. deviceName (Some (LUKSContainer c payload)) \<noteq> Error e) \<and>
   deviceName (Some (LUKSContainer c payload)) \<noteq> Panic PanicUnsupportedDeviceType"
  by simp

theorem deviceName_LUKSContainer_witness:
  "deviceName (Some (LUKSContainer (exampleContainer ''abcd1234-5678'' None) None)) =
     Ok ''luks-abcd'' \<and>
   deviceName (Some (LUKSContainer (exampleContainer ''abc'' None) None)) =
     Panic PanicSliceBounds"
  using deviceName_LUKSContainer [of "exampleContainer ''abcd1234-5678'' None" None]
    deviceName_LUKSContainer [of "exampleContainer ''abc'' None" None]
  by (simp add: exampleContainer_def)

section \<open>The escaped path determines the segments\<close>

lemma pathUnescape_escape: "pathUnescape (concat (map escapeByte s) @ r) = s @ pathUnescape r"
  by (induction s) (auto simp: escapeByte_def backslash_def)

lemma last_dropWhile_ne: "dropWhile P xs \<noteq> [] \<Longrightarrow> last (dropWhile P xs) = last xs"
  by (induction xs) (auto split: if_splits)

lemma Trim_idem: "Trim (Trim p cs) cs = Trim p cs"
proof -
  let ?P = "\<lambda>c. c \<in> set cs"
  have "dropWhile ?P (rev (dropWhile ?P (rev (dropWhile ?P p)))) =
      rev (dropWhile ?P (rev (dropWhile ?P p)))"
    by (metis dropWhile_eq_self_iff hd_dropWhile hd_rev last_dropWhile_ne rev.simps(1)
        rev_rev_ident)
  then show ?thesis by (simp add: Trim_def)
qed

lemma pathSegments_roundtrip: "pathSegments (pathUnescape (pathEscape p)) = pathSegments p"
proof (cases "p = [] \<or> p = ''/''")
  case True
  then show ?thesis by (auto simp: pathEscape_root pathSegments_def Trim_def)
next
  case False
  then have "pathUnescape (pathEscape p) = Trim p ''/''"
    using pathUnescape_escape [of "Trim p ''/''" "[]"] by (simp add: pathEscape_concat)
  then show ?thesis by (simp add: pathSegments_def Trim_idem)
qed

text \<open>
  C9. \<open>pathEscape\<close> maps the empty path and \<open>/\<close> to \<open>-\<close>. For every other path the
  decoder gives back the path without its leading and trailing \<open>/\<close>, so for every path
  the segments are recovered from the escaped string, and two paths with different
  segments have different escapes. (The whole path is not recovered: the leading and
  trailing \<open>/\<close> are lost.)
\<close>

theorem pathEscape_segments:
  "pathEscape [] = ''-'' \<and> pathEscape ''/'' = ''-'' \<and>
   (p \<noteq> [] \<and> p \<noteq> ''/'' \<longrightarrow> pathUnescape (pathEscape p) = Trim p ''/'') \<and>
   pathSegments (pathUnescape (pathEscape p)) = pathSegments p \<and>
   (pathSegments p \<noteq> pathSegments q \<longrightarrow> pathEscape p \<noteq> pathEscape q)"
proof -
  have "pathUnescape (pathEscape p) = Trim p ''/''" if "p \<noteq> []" "p \<noteq> ''/''"
    using that pathUnescape_escape [of "Trim p ''/''" "[]"] by (simp add: pathEscape_concat)
  moreover have "pathSegments p = pathSegments q" if "pathEscape p = pathEscape q"
    using pathSegments_roundtrip [of p] pathSegments_roundtrip [of q] that by simp
  ultimately show ?thesis
    by (auto simp: pathEscape_root pathSegments_roundtrip)
qed

theorem pathEscape_segments_witness:
  "pathUnescape (pathEscape (''/a-b'' @ [backslash] @ ''c/d/'')) =
     ''a-b'' @ [backslash] @ ''c/d'' \<and>
   pathSegments (''/a-b'' @ [backslash] @ ''c/d/'') = [''a-b'' @ [backslash] @ ''c'', ''d''] \<and>
   pathSegments ''/a/b'' = [''a'', ''b''] \<and>
   pathEscape (''/a-b'' @ [backslash] @ ''c/d/'') \<noteq> pathEscape ''/a/b''"
  using pathEscape_segments [of "''/a-b'' @ [backslash] @ ''c/d/''" "''/a/b''"]
  by (simp add: pathSegments_def Trim_def backslash_def)

section \<open>Order of the finish stages\<close>

lemma genFinishStages_step:
  assumes "genFinishStages filename (stages, removeKeyStages) (e, path) = Ok (stages', removeKeyStages')"
  shows "\<exists>ms rs. stages' = stages @ ms \<and> removeKeyStages' = removeKeyStages @ rs \<and>
           list_all2 isRename (volumeGroupNames [e]) ms \<and>
           list_all2 isRemoveKey (removalPassphrases [e]) rs"
  using assms
  by (cases e)
     (auto split: result.splits option.splits if_splits prod.splits
        simp: Let_def isRename_def isRemoveKey_def NewLVM2MetadataStage_def NewLUKS2RemoveKeyStage_def)

lemma volumeGroupNames_Cons: "volumeGroupNames (e # es) = volumeGroupNames [e] @ volumeGroupNames es"
  by (cases e) auto

lemma removalPassphrases_Cons: "removalPassphrases (e # es) = removalPassphrases [e] @ removalPassphrases es"
  by (cases e) (auto split: option.splits)

lemma genFinishStages_forEach:
  "forEach (genFinishStages filename) vs (stages, removeKeyStages) = Ok (stages', removeKeyStages') \<Longrightarrow>
     \<exists>ms rs. stages' = stages @ ms \<and> removeKeyStages' = removeKeyStages @ rs \<and>
           list_all2 isRename (volumeGroupNames (map fst vs)) ms \<and>
           list_all2 isRemoveKey (removalPassphrases (map fst vs)) rs"
proof (induction vs arbitrary: stages removeKeyStages)
  case Nil
  then show ?case by simp
next
  case (Cons v vs)
  obtain e path where v: "v = (e, path)" by (cases v)
  from Cons.prems obtain st1 rk1 where
    step: "genFinishStages filename (stages, removeKeyStages) (e, path) = Ok (st1, rk1)" and
    rest: "forEach (genFinishStages filename) vs (st1, rk1) = Ok (stages', removeKeyStages')"
    by (auto simp: v split: result.splits)
  from genFinishStages_step [OF step] obtain ms1 rs1 where
    1: "st1 = stages @ ms1" "rk1 = removeKeyStages @ rs1"
       "list_all2 isRename (volumeGroupNames [e]) ms1"
       "list_all2 isRemoveKey (removalPassphrases [e]) rs1"
    by blast
  from Cons.IH [OF rest] obtain ms2 rs2 where
    2: "stages' = st1 @ ms2" "removeKeyStages' = rk1 @ rs2"
       "list_all2 isRename (volumeGroupNames (map fst vs)) ms2"
       "list_all2 isRemoveKey (removalPassphrases (map fst vs)) rs2"
    by blast
  have "list_all2 isRename (volumeGroupNames (map fst (v # vs))) (ms1 @ ms2)"
    using 1(3) 2(3) volumeGroupNames_Cons [of e "map fst vs"] by (simp add: v list_all2_appendI)
  moreover have "list_all2 isRemoveKey (removalPassphrases (map fst (v # vs))) (rs1 @ rs2)"
    using 1(4) 2(4) removalPassphrases_Cons [of e "map fst vs"] by (simp add: v list_all2_appendI)
  ultimately show ?case using 1 2 by auto
qed

text \<open>
  C1. In the sequence that \<open>GenDeviceFinishStages\<close> returns, every remove-key operation
  comes after every metadata-rename operation, wherever the entities are in the tree: the
  sequence is the renames of the volume groups, in the order of the traversal, followed
  by the remove-key operations of the encryption containers whose key-escrow policy asks
  for the removal of the passphrase, in the order of the traversal.
\<close>

theorem GenDeviceFinishStages_order:
  assumes "GenDeviceFinishStages pt filename = Ok stages"
  shows "\<exists>renames removes.
           stages = renames @ removes \<and>
           list_all2 isRename (volumeGroupNames (map fst (ForEachEntity pt))) renames \<and>
           list_all2 isRemoveKey (removalPassphrases (map fst (ForEachEntity pt))) removes \<and>
           (\<forall>i j. i < length stages \<and> j < length stages \<and>
                  Stage.Type (stages ! i) = ''org.osbuild.luks2.remove-key'' \<and>
                  Stage.Type (stages ! j) = ''org.osbuild.lvm2.metadata'' \<longrightarrow> j < i)"
proof -
  from assms obtain st rk where
    run: "forEach (genFinishStages filename) (ForEachEntity pt) ([], []) = Ok (st, rk)" and
    stages: "stages = st @ rk"
    by (auto simp: GenDeviceFinishStages_def split: result.splits)
  from genFinishStages_forEach [OF run] have
    ms: "list_all2 isRename (volumeGroupNames (map fst (ForEachEntity pt))) st" and
    rs: "list_all2 isRemoveKey (removalPassphrases (map fst (ForEachEntity pt))) rk"
    by auto
  have tm: "Stage.Type s = ''org.osbuild.lvm2.metadata''" if "s \<in> set st" for s
    using ms that by (auto simp: list_all2_conv_all_nth in_set_conv_nth isRename_def)
  have tr: "Stage.Type s = ''org.osbuild.luks2.remove-key''" if "s \<in> set rk" for s
    using rs that by (auto simp: list_all2_conv_all_nth in_set_conv_nth isRemoveKey_def)
  have "j < i" if "i < length stages" "j < length stages"
      "Stage.Type (stages ! i) = ''org.osbuild.luks2.remove-key''"
      "Stage.Type (stages ! j) = ''org.osbuild.lvm2.metadata''" for i j
  proof -
    have i: "\<not> i < length st"
    proof
      assume "i < length st"
      then have "stages ! i \<in> set st" by (simp add: stages nth_append)
      from tm [OF this] that(3) show False by simp
    qed
    have j: "j < length st"
    proof (rule ccontr)
      assume "\<not> j < length st"
      then have "stages ! j \<in> set rk" using that(2) by (auto simp: stages nth_append)
      from tr [OF this] that(4) show False by simp
    qed
    from i j show ?thesis by simp
  qed
  with ms rs stages show ?thesis by blast
qed

theorem GenDeviceFinishStages_order_witness:
  "\<exists>rename remove.
     GenDeviceFinishStages (exampleEncryptedTree (Some exampleClevis)) ''disk.img'' =
       Ok [rename, remove] \<and>
     isRename ''vg00'' rename \<and> isRemoveKey ''secret'' remove \<and>
     map fst (ForEachEntity (exampleEncryptedTree (Some exampleClevis))) ! 2 =
       LUKSContainer (exampleContainer ''abcd1234-5678'' (Some exampleClevis))
         (Some (LVMVolumeGroup ''vg00''
           [(''lv_root'', 2147483648, Some (Filesystem ''xfs'' ''/''))])) \<and>
     map fst (ForEachEntity (exampleEncryptedTree (Some exampleClevis))) ! 3 =
       LVMVolumeGroup ''vg00'' [(''lv_root'', 2147483648, Some (Filesystem ''xfs'' ''/''))]"
proof -
  let ?T = "exampleEncryptedTree (Some exampleClevis)"
  have "\<exists>a b. GenDeviceFinishStages ?T ''disk.img'' = Ok [a, b]"
    by (simp add: GenDeviceFinishStages_def ForEachEntity_def exampleEncryptedTree_def
        exampleContainer_def exampleClevis_def getDevices_def dropLast_def Let_def)
  then obtain a b where run: "GenDeviceFinishStages ?T ''disk.img'' = Ok [a, b]"
    by blast
  have vg: "volumeGroupNames (map fst (ForEachEntity ?T)) = [''vg00'']"
    by (simp add: ForEachEntity_def exampleEncryptedTree_def)
  have rp: "removalPassphrases (map fst (ForEachEntity ?T)) = [''secret'']"
    by (simp add: ForEachEntity_def exampleEncryptedTree_def exampleContainer_def
        exampleClevis_def)
  from GenDeviceFinishStages_order [OF run] obtain renames removes where
    "[a, b] = renames @ removes" "list_all2 isRename [''vg00''] renames"
    "list_all2 isRemoveKey [''secret''] removes"
    unfolding vg rp by blast
  then have "isRename ''vg00'' a" "isRemoveKey ''secret'' b"
    by (auto simp: list_all2_Cons1)
  moreover have "map fst (ForEachEntity ?T) ! 2 =
       LUKSContainer (exampleContainer ''abcd1234-5678'' (Some exampleClevis))
         (Some (LVMVolumeGroup ''vg00''
           [(''lv_root'', 2147483648, Some (Filesystem ''xfs'' ''/''))]))"
    by (simp add: ForEachEntity_def exampleEncryptedTree_def)
  moreover have "map fst (ForEachEntity ?T) ! 3 =
       LVMVolumeGroup ''vg00'' [(''lv_root'', 2147483648, Some (Filesystem ''xfs'' ''/''))]"
    by (simp add: ForEachEntity_def exampleEncryptedTree_def numeral_3_eq_3)
  ultimately show ?thesis using run by blast
qed

section \<open>The creation stages\<close>









section \<open>The order of the mounts\<close>

lemma pathEscape_eval:
  "pathEscape path =
     (if path = [] \<or> path = ''/'' then ''-'' else concat (map escapeByte (Trim path ''/'')))"
  by (simp add: pathEscape_root pathEscape_concat)

lemmas mount_defs =
  genMountsDevicesFromPt_def initialMountState_def ForEachMountable_PartitionTable getDevices_def Let_def index_def
  switchFSType_def pathEscape_eval escapeByte_def Trim_def backslash_def
  NewXfsMount_def NewFATMount_def NewExt4Mount_def NewBtrfsMount_def
  NewLoopbackDevice_def NewLUKS2Device_def NewLVM2LVDevice_def

lemma append_less: "r \<noteq> [] \<Longrightarrow> a < a @ (r :: string)"
  by (induction a) (auto simp: neq_Nil_conv)

lemma strict_prefix_less:
  assumes "strict_prefix a d"
  shows "a < (d :: string)"
proof -
  from assms obtain r where "d = a @ r" "r \<noteq> []"
    by (auto simp: strict_prefix_def prefix_def)
  then show ?thesis by (simp add: append_less)
qed

lemma isAncestorDir_strict_prefix: "isAncestorDir a d \<Longrightarrow> strict_prefix a d"
  unfolding isAncestorDir_def strict_prefix_def prefix_def
  by (metis append_take_drop_id less_irrefl)

lemma sorted_nth_less:
  assumes "sorted (map f xs)" "i < length xs" "j < length xs" "f (xs ! i) < f (xs ! j)"
  shows "i < j"
proof (rule ccontr)
  assume "\<not> i < j"
  then have "j \<le> i" by simp
  with assms(1,2) have "map f xs ! j \<le> map f xs ! i"
    by (intro sorted_nth_mono) auto
  with assms(2,3,4) show False by simp
qed

text \<open>
  C3. When \<open>genMountsDevicesFromPt\<close> succeeds, the mounts it returns are sorted by their
  target in the byte-wise lexicographic order of strings. So a mount whose target is a
  proper prefix of the target of another mount comes before it, and in particular the
  mount of an ancestor directory comes before the mount of its descendant.
\<close>

theorem genMountsDevicesFromPt_sorted:
  assumes "genMountsDevicesFromPt rng filename pt = Ok (root, ms, ds, None)"
  shows "sorted (map Target ms) \<and>
         (\<forall>i j. i < length ms \<and> j < length ms \<and>
                strict_prefix (Target (ms ! i)) (Target (ms ! j)) \<longrightarrow> i < j) \<and>
         (\<forall>i j. i < length ms \<and> j < length ms \<and>
                isAncestorDir (Target (ms ! i)) (Target (ms ! j)) \<longrightarrow> i < j)"
proof -
  from assms have s: "sorted (map Target ms)"
    by (auto simp: genMountsDevicesFromPt_def Let_def split: result.splits if_splits)
  have p: "i < j" if "i < length ms" "j < length ms"
      "strict_prefix (Target (ms ! i)) (Target (ms ! j))" for i j
    using sorted_nth_less [OF s that(1,2)] strict_prefix_less [OF that(3)] by simp
  from s p show ?thesis by (blast dest: isAncestorDir_strict_prefix)
qed

theorem genMountsDevicesFromPt_sorted_witness:
  "\<exists>ms ds.
     genMountsDevicesFromPt (map fst) ''disk.img'' (examplePlainTree ''ext4'') =
       Ok (''-'', ms, ds, None) \<and>
     map Target ms = [''/'', ''/boot/efi''] \<and>
     map (GetMountpoint \<circ> fst) (ForEachMountable (examplePlainTree ''ext4'')) =
       [''/boot/efi'', ''/''] \<and>
     isAncestorDir ''/'' ''/boot/efi'' \<and>
     sorted (map Target ms)"
proof -
  have "\<exists>ms ds.
     genMountsDevicesFromPt (map fst) ''disk.img'' (examplePlainTree ''ext4'') =
       Ok (''-'', ms, ds, None) \<and> map Target ms = [''/'', ''/boot/efi'']"
    by (simp add: mount_defs examplePlainTree_def)
  then obtain ms ds where
    run: "genMountsDevicesFromPt (map fst) ''disk.img'' (examplePlainTree ''ext4'') =
       Ok (''-'', ms, ds, None)" and
    tg: "map Target ms = [''/'', ''/boot/efi'']"
    by (elim exE conjE)
  have leaves: "map (GetMountpoint \<circ> fst) (ForEachMountable (examplePlainTree ''ext4'')) =
       [''/boot/efi'', ''/'']"
    by (simp add: ForEachMountable_PartitionTable examplePlainTree_def)
  have anc: "isAncestorDir ''/'' ''/boot/efi''"
    by (simp add: isAncestorDir_def)
  from genMountsDevicesFromPt_sorted [OF run] have "sorted (map Target ms)" by blast
  with run tg leaves anc show ?thesis
    by - (rule exI [of _ ms], rule exI [of _ ds], simp)
qed

section \<open>The closure genMounts, one leaf at a time\<close>

lemma forEach_append:
  "forEach cb (xs @ ys) st =
     (case forEach cb xs st of Panic p \<Rightarrow> Panic p | Error e \<Rightarrow> Error e
      | Ok st' \<Rightarrow> forEach cb ys st')"
  by (induction xs arbitrary: st) (auto split: result.splits)

lemma switchFSType_Some_iff:
  "switchFSType t name mountpoint \<noteq> None \<longleftrightarrow> t \<in> {''xfs'', ''vfat'', ''ext4'', ''btrfs''}"
  by (simp add: switchFSType_def)

lemma deviceName_not_Error: "deviceName payload \<noteq> Error e"
  by (cases payload rule: deviceName.cases) auto

lemma getDevices_loop_not_Error:
  "getDevices_loop path filename lockLoopback pt do parent \<noteq> Error e"
proof (induction path filename lockLoopback pt "do" parent rule: getDevices_loop.induct)
  case (3 start sz payload path filename lockLoopback pt "do" parent)
  then show ?case
    using deviceName_not_Error [of payload]
    by (cases pt) (auto simp: Let_def split: result.splits)
next
  case (4 c payload path filename lockLoopback pt "do" parent)
  then show ?case
    using deviceName_not_Error [of payload] by (auto simp: Let_def split: result.splits)
next
  case (5 lvname sz payload path filename lockLoopback pt "do" parent)
  then show ?case
    using deviceName_not_Error [of payload] by (auto simp: Let_def split: result.splits)
qed auto

lemma getDevices_not_Error: "getDevices path filename lockLoopback \<noteq> Error e"
  by (simp add: getDevices_def getDevices_loop_not_Error)

lemma genMounts_Ok:
  assumes "genMounts rng filename st (mnt, path) = Ok st'"
  shows "\<exists>stageDevices name m.
           getDevices path filename False = Ok (stageDevices, name) \<and>
           switchFSType (GetFSType mnt) name (GetMountpoint mnt) = Some m \<and>
           mounts st' = mounts st @ [m] \<and>
           mergeDevices (rng stageDevices) stageDevices (devices st) = Ok (devices st') \<and>
           fsRootMntName st' = (if GetMountpoint mnt = ''/'' then name else fsRootMntName st)"
  using assms
  by (auto simp: Let_def split: result.splits option.splits prod.splits if_splits)

lemma genMounts_Error:
  assumes "genMounts rng filename st (mnt, path) = Error e"
  shows "\<exists>stageDevices name.
           getDevices path filename False = Ok (stageDevices, name) \<and>
           (e = UnknownFsType (Errorf (''unknown fs type '' @ GetFSType mnt)) \<and>
              switchFSType (GetFSType mnt) name (GetMountpoint mnt) = None \<or>
            switchFSType (GetFSType mnt) name (GetMountpoint mnt) \<noteq> None \<and>
              mergeDevices (rng stageDevices) stageDevices (devices st) = Error e)"
  using assms getDevices_not_Error [of path filename False]
  by (auto simp: Let_def split: result.splits option.splits prod.splits if_splits)

lemma genMounts_forEach_mounts:
  "forEach (genMounts rng filename) vs st = Ok st' \<Longrightarrow>
     \<exists>new. mounts st' = mounts st @ new \<and> list_all2 (mountOfLeaf filename) vs new"
proof (induction vs arbitrary: st)
  case Nil
  then show ?case by simp
next
  case (Cons v vs)
  obtain mnt path where v: "v = (mnt, path)" by (cases v)
  from Cons.prems obtain st1 where
    step: "genMounts rng filename st (mnt, path) = Ok st1" and
    rest: "forEach (genMounts rng filename) vs st1 = Ok st'"
    by (auto simp: v split: result.splits)
  from genMounts_Ok [OF step] obtain m where
    "mountOfLeaf filename v m" "mounts st1 = mounts st @ [m]"
    by (auto simp: mountOfLeaf_def v)
  with Cons.IH [OF rest] show ?case by auto
qed

lemma genMounts_forEach_UnknownFsType:
  "forEach (genMounts rng filename) vs st = Error (UnknownFsType msg) \<Longrightarrow>
     \<exists>v\<in>set vs. GetFSType (fst v) \<notin> {''xfs'', ''vfat'', ''ext4'', ''btrfs''} \<and>
       msg = Errorf (''unknown fs type '' @ GetFSType (fst v))"
proof (induction vs arbitrary: st)
  case Nil
  then show ?case by simp
next
  case (Cons v vs)
  obtain mnt path where v: "v = (mnt, path)" by (cases v)
  show ?case
  proof (cases "genMounts rng filename st (mnt, path)")
    case (Panic p)
    with Cons.prems show ?thesis by (simp add: v)
  next
    case (Error e)
    with Cons.prems have e: "e = UnknownFsType msg" by (simp add: v)
    have m: "mergeDevices ks sd ds \<noteq> Error (UnknownFsType msg)" for ks sd ds
      by (induction ks sd ds rule: mergeDevices.induct) (auto split: option.splits)
    from genMounts_Error [OF Error] e m obtain name where
      u: "msg = Errorf (''unknown fs type '' @ GetFSType mnt)" and
      n: "switchFSType (GetFSType mnt) name (GetMountpoint mnt) = None"
      by auto
    from n have "GetFSType mnt \<notin> {''xfs'', ''vfat'', ''ext4'', ''btrfs''}"
      using switchFSType_Some_iff [of "GetFSType mnt" name "GetMountpoint mnt"] by simp
    with u show ?thesis by (simp add: v)
  next
    case (Ok st1)
    with Cons.prems have "forEach (genMounts rng filename) vs st1 = Error (UnknownFsType msg)"
      by (simp add: v)
    from Cons.IH [OF this] show ?thesis by auto
  qed
qed

lemma genMounts_forEach_supported:
  "forEach (genMounts rng filename) vs st = Ok st' \<Longrightarrow>
     \<forall>v\<in>set vs. GetFSType (fst v) \<in> {''xfs'', ''vfat'', ''ext4'', ''btrfs''}"
proof (induction vs arbitrary: st)
  case Nil
  then show ?case by simp
next
  case (Cons v vs)
  obtain mnt path where v: "v = (mnt, path)" by (cases v)
  from Cons.prems obtain st1 where
    step: "genMounts rng filename st (mnt, path) = Ok st1" and
    rest: "forEach (genMounts rng filename) vs st1 = Ok st'"
    by (auto simp: v split: result.splits)
  from genMounts_Ok [OF step] obtain name m where
    "switchFSType (GetFSType mnt) name (GetMountpoint mnt) = Some m" by blast
  then have "GetFSType mnt \<in> {''xfs'', ''vfat'', ''ext4'', ''btrfs''}"
    using switchFSType_Some_iff [of "GetFSType mnt" name "GetMountpoint mnt"] by simp
  with Cons.IH [OF rest] show ?case by (simp add: v)
qed

section \<open>Filesystem types\<close>

lemma list_all2_set:
  "list_all2 P xs ys \<Longrightarrow>
     (\<forall>x\<in>set xs. \<exists>y\<in>set ys. P x y) \<and> (\<forall>y\<in>set ys. \<exists>x\<in>set xs. P x y)"
  by (induction rule: list_all2_induct) auto

lemma doPrintf_plain: "CHR ''%'' \<notin> set s \<Longrightarrow> doPrintf s = s"
  by (induction s) auto

lemma Errorf_unknown_fstype_plain:
  "CHR ''%'' \<notin> set t \<Longrightarrow> Errorf (''unknown fs type '' @ t) = ''unknown fs type '' @ t"
  unfolding Errorf_def by (rule doPrintf_plain) simp

lemma Errorf_unknown_fstype_d:
  "Errorf (''unknown fs type '' @ ''%d'') = ''unknown fs type %!d(MISSING)''"
  by (simp add: Errorf_def directive_def isFlag_def isDigit_def argNumber_def widthPart_def
      precisionPart_def verbPart_def DecodeRuneInString_def Let_def)

text \<open>
  C4. The \<open>switch\<close> of \<open>genMountsDevicesFromPt\<close> knows exactly the four filesystem types
  \<open>xfs\<close>, \<open>vfat\<close>, \<open>ext4\<close> and \<open>btrfs\<close>, and builds the mount of that kind for each: on
  success every leaf has its mount among the mounts returned, and every mount returned is
  the mount of a leaf. A result with the error for an unknown filesystem type has no root
  name, mounts or devices, and its message is the one that \<open>fmt.Errorf\<close> makes for a leaf
  whose type is none of the four. A tree with a leaf of another type never gives a result
  without error, and when the traversal reaches such a leaf the result is this error.

  The message names the type only when the type has no byte \<open>%\<close>: the type is appended to
  the format string and is not an operand, so a type without \<open>%\<close> is copied, and a \<open>%\<close>
  in the type starts a directive that has no operand. For a root filesystem of type \<open>%d\<close>
  the call returns, whatever the file name and the order of the range loop, the error with
  the message \<open>unknown fs type %!d(MISSING)\<close>, in which the type \<open>%d\<close> does not occur.
\<close>

theorem genMountsDevicesFromPt_unknown_fstype:
  "(switchFSType t name mountpoint \<noteq> None \<longleftrightarrow> t \<in> {''xfs'', ''vfat'', ''ext4'', ''btrfs''}) \<and>
   switchFSType ''xfs'' name mountpoint = Some (NewXfsMount name name mountpoint) \<and>
   switchFSType ''vfat'' name mountpoint = Some (NewFATMount name name mountpoint) \<and>
   switchFSType ''ext4'' name mountpoint = Some (NewExt4Mount name name mountpoint) \<and>
   switchFSType ''btrfs'' name mountpoint = Some (NewBtrfsMount name name mountpoint) \<and>
   (genMountsDevicesFromPt rng filename pt = Ok (root, ms, ds, None) \<longrightarrow>
      (\<forall>v\<in>set (ForEachMountable pt). \<exists>m\<in>set ms. mountOfLeaf filename v m) \<and>
      (\<forall>m\<in>set ms. \<exists>v\<in>set (ForEachMountable pt). mountOfLeaf filename v m)) \<and>
   (genMountsDevicesFromPt rng filename pt = Ok (root, ms, ds, Some (UnknownFsType msg)) \<longrightarrow>
      root = [] \<and> ms = [] \<and> ds = [] \<and>
      (\<exists>v\<in>set (ForEachMountable pt).
         GetFSType (fst v) \<notin> {''xfs'', ''vfat'', ''ext4'', ''btrfs''} \<and>
         msg = Errorf (''unknown fs type '' @ GetFSType (fst v)))) \<and>
   ((\<exists>v\<in>set (ForEachMountable pt). GetFSType (fst v) \<notin> {''xfs'', ''vfat'', ''ext4'', ''btrfs''}) \<longrightarrow>
      genMountsDevicesFromPt rng filename pt \<noteq> Ok (root, ms, ds, None)) \<and>
   (ForEachMountable pt = before @ (mnt, path) # after \<and>
    forEach (genMounts rng filename) before initialMountState = Ok st \<and>
    getDevices path filename False = Ok (stageDevices, lastName) \<and>
    GetFSType mnt \<notin> {''xfs'', ''vfat'', ''ext4'', ''btrfs''} \<longrightarrow>
      genMountsDevicesFromPt rng filename pt =
        Ok ([], [], [], Some (UnknownFsType (Errorf (''unknown fs type '' @ GetFSType mnt))))) \<and>
   (CHR ''%'' \<notin> set t \<longrightarrow> Errorf (''unknown fs type '' @ t) = ''unknown fs type '' @ t) \<and>
   map fst (ForEachMountable exampleFormatTree) = [Filesystem ''%d'' ''/''] \<and>
   genMountsDevicesFromPt rng filename exampleFormatTree =
     Ok ([], [], [], Some (UnknownFsType ''unknown fs type %!d(MISSING)'')) \<and>
   \<not> sublist ''%d'' ''unknown fs type %!d(MISSING)''"
proof (intro conjI impI)
  show "switchFSType t name mountpoint \<noteq> None \<longleftrightarrow> t \<in> {''xfs'', ''vfat'', ''ext4'', ''btrfs''}"
    by (rule switchFSType_Some_iff)
next
  assume "genMountsDevicesFromPt rng filename pt = Ok (root, ms, ds, None)"
  then obtain st' where
    run: "forEach (genMounts rng filename) (ForEachMountable pt) initialMountState = Ok st'" and
    ms: "ms = sort_key Target (mounts st')"
    by (auto simp: genMountsDevicesFromPt_def Let_def split: result.splits if_splits)
  from genMounts_forEach_mounts [OF run]
  have all: "list_all2 (mountOfLeaf filename) (ForEachMountable pt) (mounts st')"
    by (simp add: initialMountState_def)
  from ms have s: "set ms = set (mounts st')" by simp
  show "\<forall>v\<in>set (ForEachMountable pt). \<exists>m\<in>set ms. mountOfLeaf filename v m"
    unfolding s using list_all2_set [OF all] by (rule conjunct1)
  show "\<forall>m\<in>set ms. \<exists>v\<in>set (ForEachMountable pt). mountOfLeaf filename v m"
    unfolding s using list_all2_set [OF all] by (rule conjunct2)
next
  assume a: "genMountsDevicesFromPt rng filename pt = Ok (root, ms, ds, Some (UnknownFsType msg))"
  then show "root = []" "ms = []" "ds = []"
    by (auto simp: genMountsDevicesFromPt_def Let_def split: result.splits if_splits)
  from a have
    "forEach (genMounts rng filename) (ForEachMountable pt) initialMountState =
       Error (UnknownFsType msg)"
    by (auto simp: genMountsDevicesFromPt_def Let_def split: result.splits if_splits)
  then show "\<exists>v\<in>set (ForEachMountable pt).
         GetFSType (fst v) \<notin> {''xfs'', ''vfat'', ''ext4'', ''btrfs''} \<and>
         msg = Errorf (''unknown fs type '' @ GetFSType (fst v))"
    by (rule genMounts_forEach_UnknownFsType)
next
  assume bad: "\<exists>v\<in>set (ForEachMountable pt).
      GetFSType (fst v) \<notin> {''xfs'', ''vfat'', ''ext4'', ''btrfs''}"
  show "genMountsDevicesFromPt rng filename pt \<noteq> Ok (root, ms, ds, None)"
  proof
    assume "genMountsDevicesFromPt rng filename pt = Ok (root, ms, ds, None)"
    then obtain st' where
      "forEach (genMounts rng filename) (ForEachMountable pt) initialMountState = Ok st'"
      by (auto simp: genMountsDevicesFromPt_def Let_def split: result.splits if_splits)
    from genMounts_forEach_supported [OF this] bad show False by blast
  qed
next
  assume a: "ForEachMountable pt = before @ (mnt, path) # after \<and>
    forEach (genMounts rng filename) before initialMountState = Ok st \<and>
    getDevices path filename False = Ok (stageDevices, lastName) \<and>
    GetFSType mnt \<notin> {''xfs'', ''vfat'', ''ext4'', ''btrfs''}"
  then have "switchFSType (GetFSType mnt) lastName (GetMountpoint mnt) = None"
    using switchFSType_Some_iff [of "GetFSType mnt" lastName "GetMountpoint mnt"] by simp
  with a have "genMounts rng filename st (mnt, path) =
      Error (UnknownFsType (Errorf (''unknown fs type '' @ GetFSType mnt)))"
    by (simp add: Let_def)
  with a have
    "forEach (genMounts rng filename) (ForEachMountable pt) initialMountState =
       Error (UnknownFsType (Errorf (''unknown fs type '' @ GetFSType mnt)))"
    by (simp add: forEach_append)
  then show "genMountsDevicesFromPt rng filename pt =
        Ok ([], [], [], Some (UnknownFsType (Errorf (''unknown fs type '' @ GetFSType mnt))))"
    by (simp add: genMountsDevicesFromPt_def)
next
  assume "CHR ''%'' \<notin> set t"
  then show "Errorf (''unknown fs type '' @ t) = ''unknown fs type '' @ t"
    by (rule Errorf_unknown_fstype_plain)
next
  show "map fst (ForEachMountable exampleFormatTree) = [Filesystem ''%d'' ''/'']"
    by (simp add: ForEachMountable_PartitionTable exampleFormatTree_def)
next
  have "genMountsDevicesFromPt rng filename exampleFormatTree =
     Ok ([], [], [], Some (UnknownFsType (Errorf ''unknown fs type %d'')))"
    by (simp add: mount_defs exampleFormatTree_def)
  moreover have "Errorf ''unknown fs type %d'' = ''unknown fs type %!d(MISSING)''"
    using Errorf_unknown_fstype_d by simp
  ultimately show "genMountsDevicesFromPt rng filename exampleFormatTree =
     Ok ([], [], [], Some (UnknownFsType ''unknown fs type %!d(MISSING)''))"
    by (simp only:)
next
  show "\<not> sublist ''%d'' ''unknown fs type %!d(MISSING)''"
    by (simp add: sublist_Cons_right)
qed (simp_all add: switchFSType_def)

theorem genMountsDevicesFromPt_unknown_fstype_witness:
  "genMountsDevicesFromPt (map fst) ''disk.img'' (examplePlainTree ''zfs'') =
     Ok ([], [], [], Some (UnknownFsType ''unknown fs type zfs'')) \<and>
   (\<exists>v\<in>set (ForEachMountable (examplePlainTree ''zfs'')).
      GetFSType (fst v) \<notin> {''xfs'', ''vfat'', ''ext4'', ''btrfs''} \<and>
      ''unknown fs type zfs'' = Errorf (''unknown fs type '' @ GetFSType (fst v))) \<and>
   switchFSType ''zfs'' ''-'' ''/'' = None \<and>
   (\<exists>root ms ds.
      genMountsDevicesFromPt (map fst) ''disk.img'' (examplePlainTree ''xfs'') =
        Ok (root, ms, ds, None) \<and>
      ms = [NewXfsMount ''-'' ''-'' ''/'', NewFATMount ''boot-efi'' ''boot-efi'' ''/boot/efi''] \<and>
      (\<forall>v\<in>set (ForEachMountable (examplePlainTree ''xfs'')).
         \<exists>m\<in>set ms. mountOfLeaf ''disk.img'' v m) \<and>
      (\<forall>m\<in>set ms. \<exists>v\<in>set (ForEachMountable (examplePlainTree ''xfs'')).
         mountOfLeaf ''disk.img'' v m)) \<and>
   genMountsDevicesFromPt (map fst) ''disk.img'' exampleFormatTree =
     Ok ([], [], [], Some (UnknownFsType ''unknown fs type %!d(MISSING)''))"
proof -
  let ?efi = "(Filesystem ''vfat'' ''/boot/efi'',
      [examplePlainTree ''zfs'', Partition 1048576 209715200 (Some (Filesystem ''vfat'' ''/boot/efi'')),
       Filesystem ''vfat'' ''/boot/efi''])"
  let ?rootpath = "[examplePlainTree ''zfs'', Partition 210763776 4294967296 (Some (Filesystem ''zfs'' ''/'')),
       Filesystem ''zfs'' ''/'']"
  note inst = genMountsDevicesFromPt_unknown_fstype [where rng = "map fst"
      and filename = "''disk.img''" and t = "''zfs''" and name = "''-''" and mountpoint = "''/''"]
  have leaves: "ForEachMountable (examplePlainTree ''zfs'') =
      [?efi] @ (Filesystem ''zfs'' ''/'', ?rootpath) # []"
    by (simp add: ForEachMountable_PartitionTable examplePlainTree_def)
  have first: "\<exists>st. forEach (genMounts (map fst) ''disk.img'') [?efi] initialMountState = Ok st"
    by (simp add: mount_defs examplePlainTree_def)
  have chain: "\<exists>sd lastName. getDevices ?rootpath ''disk.img'' False = Ok (sd, lastName)"
    by (simp add: mount_defs examplePlainTree_def)
  from first chain obtain st sd lastName where
    "forEach (genMounts (map fst) ''disk.img'') [?efi] initialMountState = Ok st"
    "getDevices ?rootpath ''disk.img'' False = Ok (sd, lastName)"
    by (elim exE)
  with leaves have "genMountsDevicesFromPt (map fst) ''disk.img'' (examplePlainTree ''zfs'') =
     Ok ([], [], [], Some (UnknownFsType (Errorf (''unknown fs type '' @ ''zfs''))))"
    using inst [where pt = "examplePlainTree ''zfs''" and before = "[?efi]"
        and mnt = "Filesystem ''zfs'' ''/''" and path = ?rootpath and after = "[]" and st = st
        and stageDevices = sd and lastName = lastName]
    by simp
  moreover have plain: "Errorf (''unknown fs type '' @ ''zfs'') = ''unknown fs type zfs''"
    using inst [where pt = "examplePlainTree ''zfs''"] by simp
  ultimately have zfs: "genMountsDevicesFromPt (map fst) ''disk.img'' (examplePlainTree ''zfs'') =
     Ok ([], [], [], Some (UnknownFsType ''unknown fs type zfs''))"
    by (simp only:)
  from inst [where pt = "examplePlainTree ''zfs''" and root = "[]" and ms = "[]" and ds = "[]"
      and msg = "''unknown fs type zfs''"] zfs
  have named: "\<exists>v\<in>set (ForEachMountable (examplePlainTree ''zfs'')).
      GetFSType (fst v) \<notin> {''xfs'', ''vfat'', ''ext4'', ''btrfs''} \<and>
      ''unknown fs type zfs'' = Errorf (''unknown fs type '' @ GetFSType (fst v))"
    and none: "switchFSType ''zfs'' ''-'' ''/'' = None"
    by simp_all
  have "\<exists>root ms ds.
      genMountsDevicesFromPt (map fst) ''disk.img'' (examplePlainTree ''xfs'') =
        Ok (root, ms, ds, None) \<and>
      ms = [NewXfsMount ''-'' ''-'' ''/'', NewFATMount ''boot-efi'' ''boot-efi'' ''/boot/efi'']"
    by (simp add: mount_defs examplePlainTree_def)
  then obtain root ms ds where
    ok: "genMountsDevicesFromPt (map fst) ''disk.img'' (examplePlainTree ''xfs'') =
        Ok (root, ms, ds, None)" and
    ms: "ms = [NewXfsMount ''-'' ''-'' ''/'', NewFATMount ''boot-efi'' ''boot-efi'' ''/boot/efi'']"
    by (elim exE conjE)
  from inst [where pt = "examplePlainTree ''xfs''" and root = root and ms = ms and ds = ds,
        THEN conjunct2, THEN conjunct2, THEN conjunct2, THEN conjunct2, THEN conjunct2,
        THEN conjunct1, rule_format, OF ok]
  have "(\<forall>v\<in>set (ForEachMountable (examplePlainTree ''xfs'')).
         \<exists>m\<in>set ms. mountOfLeaf ''disk.img'' v m) \<and>
      (\<forall>m\<in>set ms. \<exists>v\<in>set (ForEachMountable (examplePlainTree ''xfs'')).
         mountOfLeaf ''disk.img'' v m)" .
  with ok ms have xfs: "\<exists>root ms ds.
      genMountsDevicesFromPt (map fst) ''disk.img'' (examplePlainTree ''xfs'') =
        Ok (root, ms, ds, None) \<and>
      ms = [NewXfsMount ''-'' ''-'' ''/'', NewFATMount ''boot-efi'' ''boot-efi'' ''/boot/efi''] \<and>
      (\<forall>v\<in>set (ForEachMountable (examplePlainTree ''xfs'')).
         \<exists>m\<in>set ms. mountOfLeaf ''disk.img'' v m) \<and>
      (\<forall>m\<in>set ms. \<exists>v\<in>set (ForEachMountable (examplePlainTree ''xfs'')).
         mountOfLeaf ''disk.img'' v m)"
    by - (rule exI [of _ root], rule exI [of _ ms], rule exI [of _ ds], simp)
  have fmt: "genMountsDevicesFromPt (map fst) ''disk.img'' exampleFormatTree =
     Ok ([], [], [], Some (UnknownFsType ''unknown fs type %!d(MISSING)''))"
    using inst [where pt = "examplePlainTree ''zfs''"] by simp
  from zfs named none xfs fmt show ?thesis by (intro conjI)
qed

section \<open>Merging the device chains\<close>

lemma mergeDevices_not_Panic: "mergeDevices keys stageDevices devs \<noteq> Panic p"
  by (induction keys stageDevices devs rule: mergeDevices.induct) (auto split: option.splits)

lemma mergeDevices_Ok:
  "mergeDevices keys stageDevices devs = Ok devs' \<Longrightarrow>
     (\<forall>k\<in>set keys. \<forall>d. map_of devs k = Some d \<longrightarrow> d = index stageDevices k) \<and>
     map_of devs' = (\<lambda>k. if k \<in> set keys then Some (index stageDevices k) else map_of devs k)"
proof (induction keys stageDevices devs rule: mergeDevices.induct)
  case (1 stageDevices devs)
  then show ?case by auto
next
  case (2 devName keys stageDevices devs)
  let ?devs1 = "AList.update devName (index stageDevices devName) devs"
  from "2.prems" have ok: "map_of devs devName = None \<or>
      map_of devs devName = Some (index stageDevices devName)"
    by (auto split: option.splits if_splits)
  from "2.prems" have rest: "mergeDevices keys stageDevices ?devs1 = Ok devs'"
    by (auto split: option.splits if_splits)
  from ok rest "2.IH" have ih:
    "\<forall>k\<in>set keys. \<forall>d. map_of ?devs1 k = Some d \<longrightarrow> d = index stageDevices k"
    "map_of devs' = (\<lambda>k. if k \<in> set keys then Some (index stageDevices k) else map_of ?devs1 k)"
    by auto
  have "\<forall>k\<in>set (devName # keys). \<forall>d. map_of devs k = Some d \<longrightarrow> d = index stageDevices k"
  proof (intro ballI allI impI)
    fix k d
    assume k: "k \<in> set (devName # keys)" and d: "map_of devs k = Some d"
    show "d = index stageDevices k"
    proof (cases "k = devName")
      case True
      with ok d show ?thesis by auto
    next
      case False
      with k d ih(1) show ?thesis by (simp add: update_conv')
    qed
  qed
  moreover have "map_of devs' =
      (\<lambda>k. if k \<in> set (devName # keys) then Some (index stageDevices k) else map_of devs k)"
    using ih(2) by (auto simp: update_conv' fun_eq_iff)
  ultimately show ?case by blast
qed

lemma mergeDevices_Error:
  "mergeDevices keys stageDevices devs = Error e \<Longrightarrow>
     \<exists>k\<in>set keys. e = DeviceNameCollision k \<and>
       (\<exists>d. map_of devs k = Some d \<and> d \<noteq> index stageDevices k)"
proof (induction keys stageDevices devs rule: mergeDevices.induct)
  case (1 stageDevices devs)
  then show ?case by simp
next
  case (2 devName keys stageDevices devs)
  let ?devs1 = "AList.update devName (index stageDevices devName) devs"
  show ?case
  proof (cases "\<exists>d. map_of devs devName = Some d \<and> d \<noteq> index stageDevices devName")
    case True
    with "2.prems" show ?thesis by (auto split: option.splits if_splits)
  next
    case False
    then have ok: "map_of devs devName = None \<or>
        map_of devs devName = Some (index stageDevices devName)"
      by (cases "map_of devs devName") auto
    with "2.prems" have "mergeDevices keys stageDevices ?devs1 = Error e"
      by (auto split: option.splits if_splits)
    with ok "2.IH" obtain k d where
      k: "k \<in> set keys" "e = DeviceNameCollision k" "map_of ?devs1 k = Some d"
        "d \<noteq> index stageDevices k"
      by auto
    then have "k \<noteq> devName" by (auto simp: update_conv')
    with k have "map_of devs k = Some d" by (simp add: update_conv')
    with k show ?thesis by auto
  qed
qed

lemma index_map_of: "k \<in> fst ` set m \<Longrightarrow> map_of m k = Some (index m k)"
  by (cases "map_of m k") (auto simp: index_def map_of_eq_None_iff)

lemma mergeDevices_range_Ok:
  assumes "set keys = fst ` set stageDevices"
    and "mergeDevices keys stageDevices devs = Ok devs'"
  shows "(\<forall>k d d'. map_of stageDevices k = Some d \<and> map_of devs k = Some d' \<longrightarrow> d' = d) \<and>
         map_of devs' = map_of devs ++ map_of stageDevices"
proof -
  from mergeDevices_Ok [OF assms(2)] have
    1: "\<forall>k\<in>set keys. \<forall>d. map_of devs k = Some d \<longrightarrow> d = index stageDevices k" and
    2: "map_of devs' = (\<lambda>k. if k \<in> set keys then Some (index stageDevices k) else map_of devs k)"
    by auto
  have dom: "k \<in> set keys \<longleftrightarrow> map_of stageDevices k \<noteq> None" for k
    by (simp add: assms(1) map_of_eq_None_iff)
  have val: "map_of stageDevices k = Some d \<Longrightarrow> index stageDevices k = d" for k d
    by (simp add: index_def)
  have "\<forall>k d d'. map_of stageDevices k = Some d \<and> map_of devs k = Some d' \<longrightarrow> d' = d"
    using 1 dom val by (metis option.distinct(1))
  moreover have "map_of devs' = map_of devs ++ map_of stageDevices"
  proof
    fix k
    show "map_of devs' k = (map_of devs ++ map_of stageDevices) k"
      using dom [of k] val [of k]
      by (cases "map_of stageDevices k") (auto simp: 2 map_add_def)
  qed
  ultimately show ?thesis by blast
qed

lemma mergeDevices_range_Error:
  assumes "set keys = fst ` set stageDevices"
    and "mergeDevices keys stageDevices devs = Error e"
  shows "\<exists>k d d'. e = DeviceNameCollision k \<and> map_of stageDevices k = Some d \<and>
           map_of devs k = Some d' \<and> d' \<noteq> d"
proof -
  from mergeDevices_Error [OF assms(2)] obtain k d' where
    k: "k \<in> set keys" "e = DeviceNameCollision k" "map_of devs k = Some d'"
      "d' \<noteq> index stageDevices k"
    by auto
  from k(1) have "map_of stageDevices k = Some (index stageDevices k)"
    by (simp add: assms(1) index_map_of)
  with k show ?thesis by blast
qed

lemma mergeDevices_range_iff:
  assumes "set keys = fst ` set stageDevices"
  shows "(\<exists>devs'. mergeDevices keys stageDevices devs = Ok devs') \<longleftrightarrow>
         (\<forall>k d d'. map_of stageDevices k = Some d \<and> map_of devs k = Some d' \<longrightarrow> d' = d)"
proof
  assume "\<exists>devs'. mergeDevices keys stageDevices devs = Ok devs'"
  then show "\<forall>k d d'. map_of stageDevices k = Some d \<and> map_of devs k = Some d' \<longrightarrow> d' = d"
    using mergeDevices_range_Ok [OF assms] by blast
next
  assume same: "\<forall>k d d'. map_of stageDevices k = Some d \<and> map_of devs k = Some d' \<longrightarrow> d' = d"
  show "\<exists>devs'. mergeDevices keys stageDevices devs = Ok devs'"
  proof (cases "mergeDevices keys stageDevices devs")
    case (Panic p)
    then show ?thesis by (simp add: mergeDevices_not_Panic)
  next
    case (Error e)
    from mergeDevices_range_Error [OF assms Error] same show ?thesis by blast
  next
    case (Ok devs')
    then show ?thesis by blast
  qed
qed

lemma chainEntry_insert:
  assumes "getDevices path filename False = Ok (stageDevices, name)"
  shows "chainEntry filename (insert (mnt, path) V) k d \<longleftrightarrow>
         map_of stageDevices k = Some d \<or> chainEntry filename V k d"
  using assms by (auto simp: chainEntry_def)

lemma genMounts_devices:
  assumes rng: "\<And>m. set (rng m) = fst ` set m"
    and step: "genMounts rng filename st (mnt, path) = Ok st'"
    and inv: "\<forall>k d. map_of (devices st) k = Some d \<longleftrightarrow> chainEntry filename V k d"
  shows "\<forall>k d. map_of (devices st') k = Some d \<longleftrightarrow> chainEntry filename (insert (mnt, path) V) k d"
proof -
  from genMounts_Ok [OF step] obtain stageDevices name where
    g: "getDevices path filename False = Ok (stageDevices, name)" and
    m: "mergeDevices (rng stageDevices) stageDevices (devices st) = Ok (devices st')"
    by blast
  from mergeDevices_range_Ok [OF rng m] have
    same: "\<forall>k d d'. map_of stageDevices k = Some d \<and> map_of (devices st) k = Some d' \<longrightarrow> d' = d"
    and add: "map_of (devices st') = map_of (devices st) ++ map_of stageDevices"
    by auto
  show ?thesis
  proof (intro allI)
    fix k d
    show "map_of (devices st') k = Some d \<longleftrightarrow> chainEntry filename (insert (mnt, path) V) k d"
      using same inv
      by (cases "map_of stageDevices k")
         (auto simp: chainEntry_insert [OF g] add map_add_def)
  qed
qed

lemma genMounts_forEach_devices:
  assumes rng: "\<And>m. set (rng m) = fst ` set m"
  shows "forEach (genMounts rng filename) vs st = Ok st' \<Longrightarrow>
     (\<forall>k d. map_of (devices st) k = Some d \<longleftrightarrow> chainEntry filename V k d) \<Longrightarrow>
     (\<forall>k d. map_of (devices st') k = Some d \<longleftrightarrow> chainEntry filename (V \<union> set vs) k d)"
proof (induction vs arbitrary: st V)
  case Nil
  then show ?case by simp
next
  case (Cons v vs)
  obtain mnt path where v: "v = (mnt, path)" by (cases v)
  from Cons.prems(1) obtain st1 where
    step: "genMounts rng filename st (mnt, path) = Ok st1" and
    rest: "forEach (genMounts rng filename) vs st1 = Ok st'"
    by (auto simp: v split: result.splits)
  from genMounts_devices [OF rng step Cons.prems(2)]
  have "\<forall>k d. map_of (devices st1) k = Some d \<longleftrightarrow> chainEntry filename (insert (mnt, path) V) k d" .
  from Cons.IH [OF rest this] show ?case by (simp add: v)
qed

lemma chainEntry_mono: "chainEntry filename V k d \<Longrightarrow> V \<subseteq> W \<Longrightarrow> chainEntry filename W k d"
  by (auto simp: chainEntry_def)

lemma genMounts_forEach_collision:
  assumes rng: "\<And>m. set (rng m) = fst ` set m"
  shows "forEach (genMounts rng filename) vs st = Error (DeviceNameCollision k) \<Longrightarrow>
     (\<forall>k d. map_of (devices st) k = Some d \<longleftrightarrow> chainEntry filename V k d) \<Longrightarrow>
     (\<exists>d d'. d \<noteq> d' \<and> chainEntry filename (V \<union> set vs) k d \<and>
        chainEntry filename (V \<union> set vs) k d')"
proof (induction vs arbitrary: st V)
  case Nil
  then show ?case by simp
next
  case (Cons v vs)
  obtain mnt path where v: "v = (mnt, path)" by (cases v)
  show ?case
  proof (cases "genMounts rng filename st (mnt, path)")
    case (Panic p)
    with Cons.prems(1) show ?thesis by (simp add: v)
  next
    case (Error e)
    with Cons.prems(1) have e: "e = DeviceNameCollision k" by (simp add: v)
    from genMounts_Error [OF Error] e obtain stageDevices name where
      g: "getDevices path filename False = Ok (stageDevices, name)" and
      m: "mergeDevices (rng stageDevices) stageDevices (devices st) = Error (DeviceNameCollision k)"
      by auto
    from mergeDevices_range_Error [OF rng m] obtain d d' where
      "map_of stageDevices k = Some d" "map_of (devices st) k = Some d'" "d' \<noteq> d"
      by auto
    with Cons.prems(2) g have "chainEntry filename (insert (mnt, path) V) k d"
      "chainEntry filename V k d'" "d \<noteq> d'"
      by (auto simp: chainEntry_insert)
    then have "chainEntry filename (V \<union> set (v # vs)) k d"
      "chainEntry filename (V \<union> set (v # vs)) k d'" "d \<noteq> d'"
      by (auto simp: v elim: chainEntry_mono)
    then show ?thesis by blast
  next
    case (Ok st1)
    with Cons.prems(1) have rest:
      "forEach (genMounts rng filename) vs st1 = Error (DeviceNameCollision k)"
      by (simp add: v)
    from genMounts_devices [OF rng Ok Cons.prems(2)]
    have "\<forall>k d. map_of (devices st1) k = Some d \<longleftrightarrow> chainEntry filename (insert (mnt, path) V) k d" .
    from Cons.IH [OF rest this] show ?thesis by (simp add: v)
  qed
qed

text \<open>
  C2. Let the \<open>range\<close> over a map go through the keys of the map, in any order. Merging
  the chain of a leaf into the devices collected so far succeeds exactly when, for every
  name that both bind, the two descriptors are equal, and then the result is the old
  mapping extended by the chain; otherwise it fails with the collision error for a name
  that both bind to different descriptors, and when the traversal reaches such a merge
  \<open>genMountsDevicesFromPt\<close> returns this error. When \<open>genMountsDevicesFromPt\<close> returns the
  collision error for a name, it returns no root name, no mounts and no devices, and two
  chains of leaves of the tree bind the name to different descriptors. On success the
  devices returned are exactly the entries of the chains of all leaves, so a tree in which
  two chains bind one name to different descriptors never gives a result without an error.
\<close>

theorem genMountsDevicesFromPt_collision:
  assumes "\<And>m. set (rng m) = fst ` set m"
  shows "((\<exists>devs'. mergeDevices (rng stageDevices) stageDevices devs = Ok devs') \<longleftrightarrow>
            (\<forall>k d d'. map_of stageDevices k = Some d \<and> map_of devs k = Some d' \<longrightarrow> d' = d)) \<and>
         (mergeDevices (rng stageDevices) stageDevices devs = Ok devs' \<longrightarrow>
            map_of devs' = map_of devs ++ map_of stageDevices) \<and>
         (mergeDevices (rng stageDevices) stageDevices devs = Error e \<longrightarrow>
            (\<exists>k d d'. e = DeviceNameCollision k \<and> map_of stageDevices k = Some d \<and>
               map_of devs k = Some d' \<and> d' \<noteq> d)) \<and>
         (genMountsDevicesFromPt rng filename pt =
            Ok (root, ms, ds, Some (DeviceNameCollision name)) \<longrightarrow>
            root = [] \<and> ms = [] \<and> ds = [] \<and>
            (\<exists>d d'. d \<noteq> d' \<and>
               chainEntry filename (set (ForEachMountable pt)) name d \<and>
               chainEntry filename (set (ForEachMountable pt)) name d')) \<and>
         (genMountsDevicesFromPt rng filename pt = Ok (root, ms, ds, None) \<longrightarrow>
            (\<forall>k d. map_of ds k = Some d \<longleftrightarrow>
               chainEntry filename (set (ForEachMountable pt)) k d)) \<and>
         ((\<exists>k d d'. d \<noteq> d' \<and>
               chainEntry filename (set (ForEachMountable pt)) k d \<and>
               chainEntry filename (set (ForEachMountable pt)) k d') \<longrightarrow>
            genMountsDevicesFromPt rng filename pt \<noteq> Ok (root, ms, ds, None)) \<and>
         (ForEachMountable pt = before @ (mnt, path) # after \<and>
          forEach (genMounts rng filename) before initialMountState = Ok st \<and>
          getDevices path filename False = Ok (stageDevices, lastName) \<and>
          GetFSType mnt \<in> {''xfs'', ''vfat'', ''ext4'', ''btrfs''} \<and>
          mergeDevices (rng stageDevices) stageDevices (devices st) = Error e \<longrightarrow>
            genMountsDevicesFromPt rng filename pt = Ok ([], [], [], Some e))"
proof -
  have init: "\<forall>k d. map_of (devices initialMountState) k = Some d \<longleftrightarrow> chainEntry filename {} k d"
    by (simp add: initialMountState_def chainEntry_def)
  have ok: "\<forall>k d. map_of ds k = Some d \<longleftrightarrow> chainEntry filename (set (ForEachMountable pt)) k d"
    if "genMountsDevicesFromPt rng filename pt = Ok (root, ms, ds, None)" for root ms ds
  proof -
    from that obtain st where
      run: "forEach (genMounts rng filename) (ForEachMountable pt) initialMountState = Ok st"
      and ds: "ds = devices st"
      by (auto simp: genMountsDevicesFromPt_def Let_def split: result.splits if_splits)
    from genMounts_forEach_devices [OF assms run init] show ?thesis by (simp add: ds)
  qed
  have 1: "(\<exists>devs'. mergeDevices (rng stageDevices) stageDevices devs = Ok devs') \<longleftrightarrow>
            (\<forall>k d d'. map_of stageDevices k = Some d \<and> map_of devs k = Some d' \<longrightarrow> d' = d)"
    by (rule mergeDevices_range_iff [OF assms])
  have 2: "mergeDevices (rng stageDevices) stageDevices devs = Ok devs' \<longrightarrow>
            map_of devs' = map_of devs ++ map_of stageDevices"
    using mergeDevices_range_Ok [OF assms] by blast
  have 3: "mergeDevices (rng stageDevices) stageDevices devs = Error e \<longrightarrow>
            (\<exists>k d d'. e = DeviceNameCollision k \<and> map_of stageDevices k = Some d \<and>
               map_of devs k = Some d' \<and> d' \<noteq> d)"
    using mergeDevices_range_Error [OF assms] by blast
  have 4: "genMountsDevicesFromPt rng filename pt =
            Ok (root, ms, ds, Some (DeviceNameCollision name)) \<longrightarrow>
            root = [] \<and> ms = [] \<and> ds = [] \<and>
            (\<exists>d d'. d \<noteq> d' \<and>
               chainEntry filename (set (ForEachMountable pt)) name d \<and>
               chainEntry filename (set (ForEachMountable pt)) name d')"
  proof
    assume a: "genMountsDevicesFromPt rng filename pt =
            Ok (root, ms, ds, Some (DeviceNameCollision name))"
    then have e: "root = [] \<and> ms = [] \<and> ds = []"
      by (auto simp: genMountsDevicesFromPt_def Let_def split: result.splits if_splits)
    from a have
      "forEach (genMounts rng filename) (ForEachMountable pt) initialMountState =
         Error (DeviceNameCollision name)"
      by (auto simp: genMountsDevicesFromPt_def Let_def split: result.splits if_splits)
    from genMounts_forEach_collision [OF assms this init] e
    show "root = [] \<and> ms = [] \<and> ds = [] \<and>
            (\<exists>d d'. d \<noteq> d' \<and>
               chainEntry filename (set (ForEachMountable pt)) name d \<and>
               chainEntry filename (set (ForEachMountable pt)) name d')"
      by simp
  qed
  have 5: "genMountsDevicesFromPt rng filename pt = Ok (root, ms, ds, None) \<longrightarrow>
            (\<forall>k d. map_of ds k = Some d \<longleftrightarrow>
               chainEntry filename (set (ForEachMountable pt)) k d)"
    using ok by blast
  have 6: "(\<exists>k d d'. d \<noteq> d' \<and>
               chainEntry filename (set (ForEachMountable pt)) k d \<and>
               chainEntry filename (set (ForEachMountable pt)) k d') \<longrightarrow>
            genMountsDevicesFromPt rng filename pt \<noteq> Ok (root, ms, ds, None)"
  proof (intro impI notI)
    assume "\<exists>k d d'. d \<noteq> d' \<and>
               chainEntry filename (set (ForEachMountable pt)) k d \<and>
               chainEntry filename (set (ForEachMountable pt)) k d'"
    then obtain k d d' where
      "d \<noteq> d'" "chainEntry filename (set (ForEachMountable pt)) k d"
      "chainEntry filename (set (ForEachMountable pt)) k d'"
      by blast
    moreover assume "genMountsDevicesFromPt rng filename pt = Ok (root, ms, ds, None)"
    from ok [OF this] have
      "\<forall>k d. map_of ds k = Some d \<longleftrightarrow> chainEntry filename (set (ForEachMountable pt)) k d" .
    ultimately show False by (metis option.inject)
  qed
  have 7: "ForEachMountable pt = before @ (mnt, path) # after \<and>
          forEach (genMounts rng filename) before initialMountState = Ok st \<and>
          getDevices path filename False = Ok (stageDevices, lastName) \<and>
          GetFSType mnt \<in> {''xfs'', ''vfat'', ''ext4'', ''btrfs''} \<and>
          mergeDevices (rng stageDevices) stageDevices (devices st) = Error e \<longrightarrow>
            genMountsDevicesFromPt rng filename pt = Ok ([], [], [], Some e)"
  proof
    assume a: "ForEachMountable pt = before @ (mnt, path) # after \<and>
          forEach (genMounts rng filename) before initialMountState = Ok st \<and>
          getDevices path filename False = Ok (stageDevices, lastName) \<and>
          GetFSType mnt \<in> {''xfs'', ''vfat'', ''ext4'', ''btrfs''} \<and>
          mergeDevices (rng stageDevices) stageDevices (devices st) = Error e"
    then obtain m where
      "switchFSType (GetFSType mnt) lastName (GetMountpoint mnt) = Some m"
      using switchFSType_Some_iff [of "GetFSType mnt" lastName "GetMountpoint mnt"] by blast
    with a have "genMounts rng filename st (mnt, path) = Error e"
      by (simp add: Let_def)
    with a have
      "forEach (genMounts rng filename) (ForEachMountable pt) initialMountState = Error e"
      by (simp add: forEach_append)
    then show "genMountsDevicesFromPt rng filename pt = Ok ([], [], [], Some e)"
      by (simp add: genMountsDevicesFromPt_def)
  qed
  from 1 2 3 4 5 6 7 show ?thesis by blast
qed

theorem genMountsDevicesFromPt_collision_witness:
  "(\<forall>m :: DeviceMap. set (map fst m) = fst ` set m) \<and>
   genMountsDevicesFromPt (map fst) ''disk.img'' exampleCollidingTree =
     Ok ([], [], [], Some (DeviceNameCollision ''-'')) \<and>
   (\<exists>d d'. d \<noteq> d' \<and>
      chainEntry ''disk.img'' (set (ForEachMountable exampleCollidingTree)) ''-'' d \<and>
      chainEntry ''disk.img'' (set (ForEachMountable exampleCollidingTree)) ''-'' d')"
proof -
  have rng: "set (map fst m) = fst ` set m" for m :: DeviceMap by simp
  have run: "genMountsDevicesFromPt (map fst) ''disk.img'' exampleCollidingTree =
     Ok ([], [], [], Some (DeviceNameCollision ''-''))"
    by (simp add: mount_defs exampleCollidingTree_def)
  from genMountsDevicesFromPt_collision [where rng = "map fst", OF rng, THEN conjunct2,
      THEN conjunct2, THEN conjunct2, THEN conjunct1, rule_format, OF run]
  have "\<exists>d d'. d \<noteq> d' \<and>
      chainEntry ''disk.img'' (set (ForEachMountable exampleCollidingTree)) ''-'' d \<and>
      chainEntry ''disk.img'' (set (ForEachMountable exampleCollidingTree)) ''-'' d'"
    by simp
  with rng run show ?thesis by simp
qed

section \<open>The root mount\<close>

lemma getDevices_loop_step:
  assumes "getDevices_loop (c # rest) filename lockLoopback pt do parent = Ok r"
  shows "\<exists>pt1 do1 par1.
           getDevices_loop rest filename lockLoopback pt1 do1 par1 = Ok r \<and>
           (\<forall>child\<in>set (children c). isMountable child \<longrightarrow>
              deviceName (Some child) = Ok par1)"
proof (cases c)
  case (PartitionTable b ps)
  with assms have "getDevices_loop rest filename lockLoopback (Some b) do parent = Ok r"
    by simp
  moreover have "\<forall>child\<in>set (children c). \<not> isMountable child"
    using PartitionTable by auto
  ultimately show ?thesis by blast
next
  case (Partition start sz payload)
  with assms show ?thesis
    by (cases payload) (auto simp: Let_def split: option.splits result.splits)
next
  case (LUKSContainer e payload)
  with assms show ?thesis
    by (cases payload) (auto simp: Let_def split: option.splits result.splits)
next
  case (LVMVolumeGroup name lvs)
  with assms have "getDevices_loop rest filename lockLoopback pt do parent = Ok r"
    by simp
  moreover have "\<forall>child\<in>set (children c). \<not> isMountable child"
    using LVMVolumeGroup by auto
  ultimately show ?thesis by blast
next
  case (LVMLogicalVolume name sz payload)
  with assms show ?thesis
    by (cases payload) (auto simp: Let_def split: option.splits result.splits)
next
  case (Filesystem t mountpoint)
  with assms show ?thesis by auto
qed

lemma getDevices_loop_child:
  assumes "child \<in> set (children c)"
    and "getDevices_loop (c # child # suf) filename lockLoopback pt do parent = Ok (do', l)"
  shows "(\<exists>pt1 do1 par1.
            getDevices_loop (child # suf) filename lockLoopback pt1 do1 par1 = Ok (do', l) \<and>
            (isMountable child \<longrightarrow> deviceName (Some child) = Ok par1))"
  using getDevices_loop_step [OF assms(2)] assms(1) by blast

lemma getDevices_loop_leaf:
  assumes "isMountable mnt"
    and "getDevices_loop [mnt] filename lockLoopback pt do parent = Ok (do', l)"
  shows "l = parent"
  using assms by (cases mnt) auto

lemma forEachMountable_last_device:
  "(mnt, path) \<in> set (forEachMountable c pre) \<Longrightarrow>
     isMountable mnt \<and>
     (\<exists>suf. path = pre @ suf \<and>
        (\<forall>filename lockLoopback pt do parent do' l.
           getDevices_loop (c # suf) filename lockLoopback pt do parent = Ok (do', l) \<longrightarrow>
           deviceName (Some mnt) = Ok l))"
proof (induction c pre arbitrary: mnt path rule: forEachMountable.induct)
  case (1 c pre)
  from "1.prems" obtain child where
    child: "child \<in> set (children c)" and
    v: "(mnt, path) \<in> set (visitChild pre child)"
    by (auto simp: forEachMountable_children)
  show ?case
  proof (cases "isMountable child")
    case True
    with v have eq: "mnt = child" "path = pre @ [child]" by (auto simp: visitChild_def)
    have "deviceName (Some mnt) = Ok l"
      if "getDevices_loop (c # [child]) filename lockLoopback pt do parent = Ok (do', l)"
      for filename lockLoopback pt "do" parent do' l
    proof -
      from getDevices_loop_child [OF child that] True obtain pt1 do1 par1 where
        a: "getDevices_loop [child] filename lockLoopback pt1 do1 par1 = Ok (do', l)" and
        b: "deviceName (Some child) = Ok par1"
        by blast
      from getDevices_loop_leaf [OF True a] have "l = par1" .
      with b show ?thesis by (simp add: eq)
    qed
    with True eq show ?thesis by auto
  next
    case False
    with v have "(mnt, path) \<in> set (forEachMountable child (pre @ [child]))"
      by (simp add: visitChild_def)
    from "1.IH" [OF child refl False this] obtain suf where
      m: "isMountable mnt" and p: "path = (pre @ [child]) @ suf" and
      ih: "\<And>filename lockLoopback pt do parent do' l.
           getDevices_loop (child # suf) filename lockLoopback pt do parent = Ok (do', l) \<Longrightarrow>
           deviceName (Some mnt) = Ok l"
      by blast
    have "deviceName (Some mnt) = Ok l"
      if "getDevices_loop (c # child # suf) filename lockLoopback pt do parent = Ok (do', l)"
      for filename lockLoopback pt "do" parent do' l
      using getDevices_loop_child [OF child that] ih by blast
    with m p show ?thesis by auto
  qed
qed

lemma ForEachMountable_leaf_name:
  assumes "(mnt, path) \<in> set (ForEachMountable pt)"
    and "getDevices path filename lockLoopback = Ok (stageDevices, name)"
  shows "name = pathEscape (GetMountpoint mnt)"
proof -
  from assms(1) have "(mnt, path) \<in> set (forEachMountable pt [pt])"
    by (simp add: ForEachMountable_def)
  from forEachMountable_last_device [OF this] obtain suf where
    m: "isMountable mnt" and p: "path = [pt] @ suf" and
    l: "\<And>filename lockLoopback ptv do parent do' l.
           getDevices_loop (pt # suf) filename lockLoopback ptv do parent = Ok (do', l) \<Longrightarrow>
           deviceName (Some mnt) = Ok l"
    by blast
  from assms(2) p have "deviceName (Some mnt) = Ok name"
    by (intro l [of filename lockLoopback None "[]" "[]" stageDevices]) (simp add: getDevices_def)
  with m show ?thesis by (cases mnt) auto
qed

lemma genMounts_forEach_root:
  assumes "\<forall>v\<in>set vs. \<forall>stageDevices name.
      getDevices (snd v) filename False = Ok (stageDevices, name) \<longrightarrow>
      name = pathEscape (GetMountpoint (fst v))"
    and "forEach (genMounts rng filename) vs st = Ok st'"
  shows "fsRootMntName st' =
      (if \<exists>v\<in>set vs. GetMountpoint (fst v) = ''/'' then ''-'' else fsRootMntName st)"
  using assms
proof (induction vs arbitrary: st)
  case Nil
  then show ?case by simp
next
  case (Cons v vs)
  obtain mnt path where v: "v = (mnt, path)" by (cases v)
  from Cons.prems(2) obtain st1 where
    step: "genMounts rng filename st (mnt, path) = Ok st1" and
    rest: "forEach (genMounts rng filename) vs st1 = Ok st'"
    by (auto simp: v split: result.splits)
  from genMounts_Ok [OF step] obtain stageDevices name where
    g: "getDevices path filename False = Ok (stageDevices, name)" and
    r: "fsRootMntName st1 = (if GetMountpoint mnt = ''/'' then name else fsRootMntName st)"
    by blast
  from Cons.prems(1) g have "name = pathEscape (GetMountpoint mnt)" by (simp add: v)
  with r have r1: "fsRootMntName st1 = (if GetMountpoint mnt = ''/'' then ''-'' else fsRootMntName st)"
    by (simp add: pathEscape_root)
  from Cons.prems(1) have "\<forall>v\<in>set vs. \<forall>stageDevices name.
      getDevices (snd v) filename False = Ok (stageDevices, name) \<longrightarrow>
      name = pathEscape (GetMountpoint (fst v))"
    by simp
  from Cons.IH [OF this rest] r1 show ?case by (auto simp: v)
qed

lemma genMounts_forEach_chains:
  assumes "forEach (genMounts rng filename) vs st = Ok st'" and "v \<in> set vs"
  shows "\<exists>stageDevices name. getDevices (snd v) filename False = Ok (stageDevices, name)"
proof -
  from genMounts_forEach_mounts [OF assms(1)] obtain new where
    "list_all2 (mountOfLeaf filename) vs new" by blast
  with assms(2) obtain m where "mountOfLeaf filename v m"
    by (auto simp: in_set_conv_nth list_all2_conv_all_nth)
  then show ?thesis by (auto simp: mountOfLeaf_def)
qed

text \<open>
  C5. \<open>genMountsDevicesFromPt\<close> returns the error for a missing root exactly when the
  closure has been run on every leaf without a panic or an error and no leaf has the
  mountpoint \<open>/\<close>; with this error it returns no root name, no mounts and no devices.
  When it succeeds, a leaf with the mountpoint \<open>/\<close> exists, and the root name returned is
  the name of the last device of the chain of every such leaf, which is \<open>-\<close>.
\<close>

theorem genMountsDevicesFromPt_root:
  "(genMountsDevicesFromPt rng filename pt = Ok ([], [], [], Some NoRootMount) \<longleftrightarrow>
      (\<exists>st. forEach (genMounts rng filename) (ForEachMountable pt) initialMountState = Ok st) \<and>
      (\<forall>v\<in>set (ForEachMountable pt). GetMountpoint (fst v) \<noteq> ''/'')) \<and>
   (genMountsDevicesFromPt rng filename pt = Ok (root, ms, ds, Some NoRootMount) \<longrightarrow>
      root = [] \<and> ms = [] \<and> ds = []) \<and>
   (genMountsDevicesFromPt rng filename pt = Ok (root, ms, ds, None) \<longrightarrow>
      (\<exists>v\<in>set (ForEachMountable pt). GetMountpoint (fst v) = ''/'') \<and>
      root = ''-'' \<and>
      (\<forall>v\<in>set (ForEachMountable pt). GetMountpoint (fst v) = ''/'' \<longrightarrow>
         (\<exists>stageDevices. getDevices (snd v) filename False = Ok (stageDevices, root))))"
proof -
  let ?run = "forEach (genMounts rng filename) (ForEachMountable pt) initialMountState"
  have names: "\<forall>v\<in>set (ForEachMountable pt). \<forall>stageDevices name.
      getDevices (snd v) filename False = Ok (stageDevices, name) \<longrightarrow>
      name = pathEscape (GetMountpoint (fst v))"
    using ForEachMountable_leaf_name by force
  have root: "fsRootMntName st =
      (if \<exists>v\<in>set (ForEachMountable pt). GetMountpoint (fst v) = ''/'' then ''-'' else [])"
    if "?run = Ok st" for st
    using genMounts_forEach_root [OF names that] by (simp add: initialMountState_def)
  have 1: "genMountsDevicesFromPt rng filename pt = Ok ([], [], [], Some NoRootMount) \<longleftrightarrow>
      (\<exists>st. ?run = Ok st) \<and>
      (\<forall>v\<in>set (ForEachMountable pt). GetMountpoint (fst v) \<noteq> ''/'')"
  proof (cases ?run)
    case (Panic p)
    then show ?thesis by (simp add: genMountsDevicesFromPt_def)
  next
    case (Error e)
    have "mergeDevices ks sd devs \<noteq> Error NoRootMount" for ks sd devs
      using mergeDevices_Error [of ks sd devs NoRootMount] by auto
    then have "genMounts rng filename st v \<noteq> Error NoRootMount" for st v
      using genMounts_Error [of rng filename st "fst v" "snd v" NoRootMount] by auto
    then have "forEach (genMounts rng filename) vs st \<noteq> Error NoRootMount" for vs st
      by (induction vs arbitrary: st) (auto split: result.splits)
    with Error show ?thesis by (auto simp: genMountsDevicesFromPt_def)
  next
    case (Ok st)
    with root [OF Ok] show ?thesis by (auto simp: genMountsDevicesFromPt_def Let_def)
  qed
  have 2: "genMountsDevicesFromPt rng filename pt = Ok (root, ms, ds, Some NoRootMount) \<longrightarrow>
      root = [] \<and> ms = [] \<and> ds = []"
    by (auto simp: genMountsDevicesFromPt_def Let_def split: result.splits if_splits)
  have 3: "genMountsDevicesFromPt rng filename pt = Ok (root, ms, ds, None) \<longrightarrow>
      (\<exists>v\<in>set (ForEachMountable pt). GetMountpoint (fst v) = ''/'') \<and>
      root = ''-'' \<and>
      (\<forall>v\<in>set (ForEachMountable pt). GetMountpoint (fst v) = ''/'' \<longrightarrow>
         (\<exists>stageDevices. getDevices (snd v) filename False = Ok (stageDevices, root)))"
  proof
    assume "genMountsDevicesFromPt rng filename pt = Ok (root, ms, ds, None)"
    then obtain st where run: "?run = Ok st" and r: "root = fsRootMntName st" "root \<noteq> []"
      by (auto simp: genMountsDevicesFromPt_def Let_def split: result.splits if_splits)
    from root [OF run] r have
      ex: "\<exists>v\<in>set (ForEachMountable pt). GetMountpoint (fst v) = ''/''" and
      dash: "root = ''-''"
      by (auto split: if_splits)
    have "\<exists>stageDevices. getDevices (snd v) filename False = Ok (stageDevices, root)"
      if v: "v \<in> set (ForEachMountable pt)" "GetMountpoint (fst v) = ''/''" for v
    proof -
      from genMounts_forEach_chains [OF run v(1)] obtain stageDevices name where
        g: "getDevices (snd v) filename False = Ok (stageDevices, name)" by blast
      with names v have "name = ''-''" by (auto simp: pathEscape_root)
      with g dash show ?thesis by auto
    qed
    with ex dash show "(\<exists>v\<in>set (ForEachMountable pt). GetMountpoint (fst v) = ''/'') \<and>
      root = ''-'' \<and>
      (\<forall>v\<in>set (ForEachMountable pt). GetMountpoint (fst v) = ''/'' \<longrightarrow>
         (\<exists>stageDevices. getDevices (snd v) filename False = Ok (stageDevices, root)))"
      by blast
  qed
  from 1 2 3 show ?thesis by blast
qed

theorem genMountsDevicesFromPt_root_witness:
  "genMountsDevicesFromPt (map fst) ''disk.img'' exampleRootlessTree =
     Ok ([], [], [], Some NoRootMount) \<and>
   map (GetMountpoint \<circ> fst) (ForEachMountable exampleRootlessTree) = [''/boot/efi''] \<and>
   (\<exists>root ms ds.
      genMountsDevicesFromPt (map fst) ''disk.img'' (examplePlainTree ''ext4'') =
        Ok (root, ms, ds, None) \<and> root = ''-'' \<and>
      (\<exists>v\<in>set (ForEachMountable (examplePlainTree ''ext4'')). GetMountpoint (fst v) = ''/''))"
proof -
  have run: "\<exists>st. forEach (genMounts (map fst) ''disk.img'') (ForEachMountable exampleRootlessTree)
      initialMountState = Ok st"
    by (simp add: mount_defs exampleRootlessTree_def)
  have leaves: "map (GetMountpoint \<circ> fst) (ForEachMountable exampleRootlessTree) = [''/boot/efi'']"
    by (simp add: ForEachMountable_PartitionTable exampleRootlessTree_def)
  then have noroot: "\<forall>v\<in>set (ForEachMountable exampleRootlessTree). GetMountpoint (fst v) \<noteq> ''/''"
    by (simp add: ForEachMountable_PartitionTable exampleRootlessTree_def)
  from genMountsDevicesFromPt_root [where rng = "map fst" and filename = "''disk.img''"
      and pt = exampleRootlessTree, THEN conjunct1] run noroot
  have fail: "genMountsDevicesFromPt (map fst) ''disk.img'' exampleRootlessTree =
     Ok ([], [], [], Some NoRootMount)"
    by blast
  have "\<exists>root ms ds.
      genMountsDevicesFromPt (map fst) ''disk.img'' (examplePlainTree ''ext4'') =
        Ok (root, ms, ds, None)"
    by (simp add: mount_defs examplePlainTree_def)
  then obtain root ms ds where
    ok: "genMountsDevicesFromPt (map fst) ''disk.img'' (examplePlainTree ''ext4'') =
        Ok (root, ms, ds, None)"
    by (elim exE)
  from genMountsDevicesFromPt_root [where rng = "map fst" and filename = "''disk.img''"
      and pt = "examplePlainTree ''ext4''" and root = root and ms = ms and ds = ds,
      THEN conjunct2, THEN conjunct2, rule_format, OF ok]
  have "root = ''-''"
    "\<exists>v\<in>set (ForEachMountable (examplePlainTree ''ext4'')). GetMountpoint (fst v) = ''/''"
    by simp_all
  with ok have "\<exists>root ms ds.
      genMountsDevicesFromPt (map fst) ''disk.img'' (examplePlainTree ''ext4'') =
        Ok (root, ms, ds, None) \<and> root = ''-'' \<and>
      (\<exists>v\<in>set (ForEachMountable (examplePlainTree ''ext4'')). GetMountpoint (fst v) = ''/'')"
    by - (rule exI [of _ root], rule exI [of _ ms], rule exI [of _ ds], simp)
  with fail leaves show ?thesis by simp
qed

section \<open>The device chain\<close>













end
